theory Spec2Isabelle
  imports Main "HOL-Library.AList" "HOL-Library.Sublist" "HOL-Library.State_Monad"
begin

section \<open>The scheduler of \<open>src/scheduler.ts\<close>\<close>

text \<open>
  The development embeds the functions of the scheduler module (\<open>optimizeSlots\<close>,
  \<open>isClinicianEligible\<close>, \<open>getStartOfDay\<close>, \<open>getStartOfWeek\<close>,
  \<open>getAppointmentsOnDay\<close>, \<open>getAppointmentsInWeek\<close>,
  \<open>canAccommodateAppointments\<close>, \<open>findAssessmentSlots\<close>, \<open>findTherapySlots\<close>)
  and proves the properties the specification states about them.

  A JavaScript \<open>Date\<close> holding a valid time is identified with its time value, the
  integer number of milliseconds since 1970-01-01T00:00:00Z, so \<open>d.getTime()\<close> is the
  identity and \<open>new Date(d)\<close> a copy. Numbers that the source treats as counts,
  limits and durations are integers as well.

  The functions are given twice. First on unbounded time values, mathematical integers,
  which is what the code computes as long as every \<open>Date\<close> it builds stays within the
  range of \<open>Date\<close> (\<open>\<plusminus>8.64e15\<close> ms). Then, for the functions that build dates
  from their arguments (\<open>getStartOfDay\<close>, \<open>getStartOfWeek\<close>, \<open>optimizeSlots\<close>,
  \<open>canAccommodateAppointments\<close>), on dates of limited range, where a \<open>Date\<close> out of
  range is invalid, its time value \<open>NaN\<close>, and \<open>toISOString\<close> throws: these carry
  the suffix \<open>_clipped\<close>. The two agree where no date leaves the range.
\<close>

subsection \<open>The UTC calendar of ECMAScript \<open>Date\<close>\<close>

text \<open>
  The abstract operations of the language standard that the \<open>Date\<close> methods used by the
  scheduler are defined by: \<open>Day\<close>, \<open>TimeWithinDay\<close>, \<open>WeekDay\<close>,
  \<open>DayFromYear\<close>, \<open>YearFromTime\<close>, \<open>MonthFromTime\<close>, \<open>DateFromTime\<close>,
  \<open>MakeTime\<close>, \<open>MakeDay\<close>, \<open>MakeDate\<close>.
\<close>

definition msPerDay :: int where
  "msPerDay = 86400000"

definition Day :: "int \<Rightarrow> int" where
  "Day t = t div msPerDay"

definition TimeWithinDay :: "int \<Rightarrow> int" where
  "TimeWithinDay t = t mod msPerDay"

definition WeekDay :: "int \<Rightarrow> int" where
  \<comment> \<open>0 is Sunday, 1 Monday, ..., 6 Saturday; 1970-01-01 was a Thursday.\<close>
  "WeekDay t = (Day t + 4) mod 7"

definition DaysInYear :: "int \<Rightarrow> int" where
  "DaysInYear y =
     (if y mod 4 \<noteq> 0 then 365
      else if y mod 100 \<noteq> 0 then 366
      else if y mod 400 \<noteq> 0 then 365
      else 366)"

definition DayFromYear :: "int \<Rightarrow> int" where
  "DayFromYear y =
     365 * (y - 1970) + (y - 1969) div 4 - (y - 1901) div 100 + (y - 1601) div 400"

definition YearFromDay :: "int \<Rightarrow> int" where
  \<comment> \<open>The year whose first day is the latest one not after day \<open>d\<close>: an estimate from
      the mean length of a year (146097 days in 400 years), corrected by one.\<close>
  "YearFromDay d =
     (let y = 1970 + (400 * d) div 146097
      in if DayFromYear (y + 1) \<le> d then y + 1
         else if d < DayFromYear y then y - 1
         else y)"

definition YearFromTime :: "int \<Rightarrow> int" where
  "YearFromTime t = YearFromDay (Day t)"

definition InLeapYear :: "int \<Rightarrow> int" where
  "InLeapYear t = (if DaysInYear (YearFromTime t) = 366 then 1 else 0)"

definition DayWithinYear :: "int \<Rightarrow> int" where
  "DayWithinYear t = Day t - DayFromYear (YearFromTime t)"

definition firstDayOfMonth :: "int \<Rightarrow> int \<Rightarrow> int" where
  \<comment> \<open>The day within the year on which month \<open>m\<close> (0 is January) begins; \<open>leap\<close> is
      1 in a leap year and 0 otherwise.\<close>
  "firstDayOfMonth m leap =
     (if m = 0 then 0
      else if m = 1 then 31
      else if m = 2 then 59 + leap
      else if m = 3 then 90 + leap
      else if m = 4 then 120 + leap
      else if m = 5 then 151 + leap
      else if m = 6 then 181 + leap
      else if m = 7 then 212 + leap
      else if m = 8 then 243 + leap
      else if m = 9 then 273 + leap
      else if m = 10 then 304 + leap
      else 334 + leap)"

definition MonthFromTime :: "int \<Rightarrow> int" where
  "MonthFromTime t =
     (let d = DayWithinYear t; leap = InLeapYear t
      in if d < 31 then 0
         else if d < 59 + leap then 1
         else if d < 90 + leap then 2
         else if d < 120 + leap then 3
         else if d < 151 + leap then 4
         else if d < 181 + leap then 5
         else if d < 212 + leap then 6
         else if d < 243 + leap then 7
         else if d < 273 + leap then 8
         else if d < 304 + leap then 9
         else if d < 334 + leap then 10
         else 11)"

definition DateFromTime :: "int \<Rightarrow> int" where
  \<comment> \<open>The day of the month, from 1.\<close>
  "DateFromTime t =
     DayWithinYear t - firstDayOfMonth (MonthFromTime t) (InLeapYear t) + 1"

definition MakeTime :: "int \<Rightarrow> int \<Rightarrow> int \<Rightarrow> int \<Rightarrow> int" where
  "MakeTime h m s milli = h * 3600000 + m * 60000 + s * 1000 + milli"

definition MakeDay :: "int \<Rightarrow> int \<Rightarrow> int \<Rightarrow> int" where
  \<comment> \<open>The day number of the first of month \<open>month\<close> of year \<open>year\<close>, plus \<open>date - 1\<close>:
      a \<open>date\<close> below 1 or beyond the month's end lands in a neighbouring month.\<close>
  "MakeDay year month date =
     (let ym = year + month div 12; mn = month mod 12
      in DayFromYear ym + firstDayOfMonth mn (if DaysInYear ym = 366 then 1 else 0)
           + date - 1)"

definition MakeDate :: "int \<Rightarrow> int \<Rightarrow> int" where
  "MakeDate day time = day * msPerDay + time"

text \<open>The methods of \<open>Date.prototype\<close> that the scheduler calls.\<close>

definition getUTCDay :: "int \<Rightarrow> int" where
  "getUTCDay t = WeekDay t"

definition getUTCDate :: "int \<Rightarrow> int" where
  "getUTCDate t = DateFromTime t"

definition setUTCDate :: "int \<Rightarrow> int \<Rightarrow> int" where
  "setUTCDate t dt =
     MakeDate (MakeDay (YearFromTime t) (MonthFromTime t) dt) (TimeWithinDay t)"

definition setUTCHours :: "int \<Rightarrow> int \<Rightarrow> int \<Rightarrow> int \<Rightarrow> int \<Rightarrow> int" where
  "setUTCHours t h m s milli = MakeDate (Day t) (MakeTime h m s milli)"

subsection \<open>Data model\<close>

text \<open>
  The records carry the fields of the model interfaces that the scheduler reads,
  and the identifiers. The interfaces themselves (\<open>models/*.ts\<close>) are known from the
  object literals of the entry point and of the test suite.
\<close>

datatype ClinicianType = PSYCHOLOGIST | THERAPIST

datatype AppointmentStatus =
  UPCOMING | OCCURRED | NO_SHOW | RE_SCHEDULED | CANCELLED | LATE_CANCELLATION

record Patient =
  patient_id :: string
  state :: string
  insurance :: string

record AvailableAppointmentSlot =
  slot_id :: string
  slot_date :: int
  slot_length :: int

record Appointment =
  appointment_id :: string
  scheduledFor :: int
  appointmentType :: string
  status :: AppointmentStatus

record Clinician =
  clinician_id :: string
  clinicianType :: ClinicianType
  states :: "string list"
  insurances :: "string list"
  maxDailyAppointments :: int
  maxWeeklyAppointments :: int
  availableSlots :: "AvailableAppointmentSlot list"
  appointments :: "Appointment list"

record AssessmentSlotPair =
  session1 :: int
  session2 :: int

record ClinicianAvailability =
  clinician :: Clinician
  availableSlotPairs :: "AssessmentSlotPair list"

record TherapyAvailability =
  therapy_clinician :: Clinician
  therapy_availableSlots :: "int list"

record Interval =
  itv_start :: int
  itv_end :: int

subsection \<open>\<open>optimizeSlots\<close>\<close>

text \<open>
  \<open>Array.prototype.sort\<close> is a stable sort; with the comparator
  \<open>(a, b) => a.end.getTime() - b.end.getTime()\<close> it is the stable sort by the key
  \<open>end\<close>, which \<open>sort_key\<close> (insertion sort, stable) computes. The running
  \<open>lastEnd\<close> starts at \<open>-Infinity\<close>, here \<open>None\<close>.
\<close>

fun notBefore :: "int \<Rightarrow> int option \<Rightarrow> bool" where
  "notBefore t None = True"
| "notBefore t (Some lastEnd) = (lastEnd \<le> t)"

fun selectLoop :: "int list \<Rightarrow> int option \<Rightarrow> Interval list \<Rightarrow> int list" where
  "selectLoop selected lastEnd [] = selected"
| "selectLoop selected lastEnd (itv # intervals) =
     (if notBefore (itv_start itv) lastEnd
      then selectLoop (selected @ [itv_start itv]) (Some (itv_end itv)) intervals
      else selectLoop selected lastEnd intervals)"

definition mkInterval :: "int \<Rightarrow> int \<Rightarrow> Interval" where
  "mkInterval durationMinutes d =
     \<lparr>itv_start = d, itv_end = d + durationMinutes * 60000\<rparr>"

definition optimizeSlots :: "int list \<Rightarrow> int \<Rightarrow> int list" where
  "optimizeSlots dates durationMinutes =
     (if length dates = 0 then []
      else selectLoop [] None (sort_key itv_end (map (mkInterval durationMinutes) dates)))"

subsection \<open>Eligibility and calendar boundaries\<close>

definition isClinicianEligible :: "Clinician \<Rightarrow> Patient \<Rightarrow> bool" where
  "isClinicianEligible c p =
     (state p \<in> set (states c) \<and> insurance p \<in> set (insurances c))"

definition getStartOfDay :: "int \<Rightarrow> int" where
  "getStartOfDay date = (let d = date in setUTCHours d 0 0 0 0)"

definition getStartOfWeek :: "int \<Rightarrow> int" where
  "getStartOfWeek date =
     (let d = date;
          day = getUTCDay d;
          diff = getUTCDate d - day + (if day = 0 then - 6 else 1);
          d1 = setUTCDate d diff
      in setUTCHours d1 0 0 0 0)"

subsection \<open>Capacity accounting\<close>

definition COUNTABLE_STATUSES :: "AppointmentStatus list" where
  "COUNTABLE_STATUSES = [UPCOMING, OCCURRED, LATE_CANCELLATION]"

definition getAppointmentsOnDay :: "Clinician \<Rightarrow> int \<Rightarrow> nat" where
  "getAppointmentsOnDay c date =
     (let dayStart = getStartOfDay date;
          dayEnd = dayStart + 24 * 60 * 60 * 1000
      in length (filter (\<lambda>apt.
           let aptTime = scheduledFor apt;
               inTimeRange = (dayStart \<le> aptTime \<and> aptTime < dayEnd)
           in inTimeRange \<and> status apt \<in> set COUNTABLE_STATUSES) (appointments c)))"

definition getAppointmentsInWeek :: "Clinician \<Rightarrow> int \<Rightarrow> nat" where
  "getAppointmentsInWeek c date =
     (let weekStart = getStartOfWeek date;
          weekEnd = weekStart + 7 * 24 * 60 * 60 * 1000
      in length (filter (\<lambda>apt.
           let aptTime = scheduledFor apt;
               inTimeRange = (weekStart \<le> aptTime \<and> aptTime < weekEnd)
           in inTimeRange \<and> status apt \<in> set COUNTABLE_STATUSES) (appointments c)))"

text \<open>
  A \<open>Map\<close> is an association list in insertion order: \<open>map_of\<close> is \<open>get\<close>,
  \<open>AList.update\<close> is \<open>set\<close> (it replaces the value of a present key in place and
  appends an absent one). The keys of the source are the ISO strings
  \<open>getStartOfDay(date).toISOString()\<close>, read back with \<open>new Date(dayKey)\<close>; on valid
  dates \<open>toISOString\<close> is injective and \<open>new Date\<close> inverts it, so the model keys the
  maps by the instant itself.
\<close>

fun countByKey :: "(int \<Rightarrow> int) \<Rightarrow> int list \<Rightarrow> (int \<times> nat) list \<Rightarrow> (int \<times> nat) list" where
  "countByKey key [] counts = counts"
| "countByKey key (date # dates) counts =
     countByKey key dates
       (AList.update (key date)
          ((case map_of counts (key date) of None \<Rightarrow> 0 | Some n \<Rightarrow> n) + 1) counts)"

fun checkDailyLimits :: "Clinician \<Rightarrow> (int \<times> nat) list \<Rightarrow> bool" where
  "checkDailyLimits c [] = True"
| "checkDailyLimits c ((key, count) # rest) =
     (let representativeDate = key;
          existingCount = getAppointmentsOnDay c representativeDate
      in if int (existingCount + count) > maxDailyAppointments c then False
         else checkDailyLimits c rest)"

fun checkWeeklyLimits :: "Clinician \<Rightarrow> (int \<times> nat) list \<Rightarrow> bool" where
  "checkWeeklyLimits c [] = True"
| "checkWeeklyLimits c ((weekKey, count) # rest) =
     (let representativeDate = weekKey;
          appointmentsInWeek = getAppointmentsInWeek c representativeDate
      in if int (appointmentsInWeek + count) > maxWeeklyAppointments c then False
         else checkWeeklyLimits c rest)"

definition canAccommodateAppointments :: "Clinician \<Rightarrow> int list \<Rightarrow> bool" where
  "canAccommodateAppointments c dates =
     (let countsByDay = countByKey getStartOfDay dates []
      in if \<not> checkDailyLimits c countsByDay then False
         else let countsByWeek = countByKey getStartOfWeek dates []
              in if \<not> checkWeeklyLimits c countsByWeek then False else True)"

subsection \<open>\<open>findAssessmentSlots\<close>\<close>

record EligibleDay =
  dayKey :: int
  dayTime :: int
  slots :: "int list"

fun groupByDay :: "int list \<Rightarrow> (int \<times> int list) list \<Rightarrow> (int \<times> int list) list" where
  "groupByDay [] slotsByDay = slotsByDay"
| "groupByDay (slot # rest) slotsByDay =
     (let key = getStartOfDay slot;
          m = (if map_of slotsByDay key = None then AList.update key [] slotsByDay
               else slotsByDay)
      in groupByDay rest
           (AList.update key ((case map_of m key of None \<Rightarrow> [] | Some xs \<Rightarrow> xs) @ [slot]) m))"

fun eligibleDaysOf :: "Clinician \<Rightarrow> (int \<times> int list) list \<Rightarrow> EligibleDay list" where
  "eligibleDaysOf c [] = []"
| "eligibleDaysOf c ((key, daySlots) # rest) =
     (let representativeDate = key;
          existingCount = getAppointmentsOnDay c representativeDate
      in if int (existingCount + 1) \<le> maxDailyAppointments c
         then \<lparr>dayKey = key, dayTime = representativeDate, slots = daySlots\<rparr>
                # eligibleDaysOf c rest
         else eligibleDaysOf c rest)"

definition sevenDaysMs :: int where
  "sevenDaysMs = 7 * 24 * 60 * 60 * 1000"

definition pairSlots :: "Clinician \<Rightarrow> int list \<Rightarrow> int list \<Rightarrow> AssessmentSlotPair list" where
  \<comment> \<open>The two innermost loops: every \<open>slot1\<close> of the earlier day with every \<open>slot2\<close>
      of the later day, kept when the clinician can accommodate both.\<close>
  "pairSlots c slots1 slots2 =
     concat (map (\<lambda>slot1.
       map (\<lambda>slot2. \<lparr>session1 = slot1, session2 = slot2\<rparr>)
         (filter (\<lambda>slot2. canAccommodateAppointments c [slot1, slot2]) slots2)) slots1)"

fun pairWithLaterDays :: "Clinician \<Rightarrow> EligibleDay \<Rightarrow> EligibleDay list \<Rightarrow> AssessmentSlotPair list" where
  \<comment> \<open>The loop over \<open>j\<close>; it ends at the first day more than seven days after \<open>day1\<close>.\<close>
  "pairWithLaterDays c day1 [] = []"
| "pairWithLaterDays c day1 (day2 # rest) =
     (let daysDiff = dayTime day2 - dayTime day1
      in if daysDiff > sevenDaysMs then []
         else pairSlots c (slots day1) (slots day2) @ pairWithLaterDays c day1 rest)"

fun pairAllDays :: "Clinician \<Rightarrow> EligibleDay list \<Rightarrow> AssessmentSlotPair list" where
  \<comment> \<open>The loop over \<open>i\<close>.\<close>
  "pairAllDays c [] = []"
| "pairAllDays c (day1 # rest) = pairWithLaterDays c day1 rest @ pairAllDays c rest"

definition assessmentSlotsOf :: "Clinician \<Rightarrow> int list" where
  "assessmentSlotsOf c =
     sort (map slot_date (filter (\<lambda>slot. slot_length slot = 90) (availableSlots c)))"

definition assessmentFor :: "Patient \<Rightarrow> Clinician \<Rightarrow> ClinicianAvailability option" where
  \<comment> \<open>The body of the loop over the clinicians: \<open>None\<close> where the source continues
      without a result.\<close>
  "assessmentFor patient c =
     (if clinicianType c \<noteq> PSYCHOLOGIST then None
      else if \<not> isClinicianEligible c patient then None
      else let assessmentSlots = assessmentSlotsOf c
           in if length assessmentSlots < 2 then None
              else let slotsByDay = groupByDay assessmentSlots [];
                       eligibleDays = eligibleDaysOf c slotsByDay
                   in if length eligibleDays < 2 then None
                      else let validPairs = pairAllDays c (sort_key dayTime eligibleDays)
                           in if length validPairs > 0
                              then Some \<lparr>clinician = c, availableSlotPairs = validPairs\<rparr>
                              else None)"

fun findAssessmentSlots :: "Patient \<Rightarrow> Clinician list \<Rightarrow> ClinicianAvailability list" where
  "findAssessmentSlots patient [] = []"
| "findAssessmentSlots patient (c # clinicians) =
     (case assessmentFor patient c of
        None \<Rightarrow> findAssessmentSlots patient clinicians
      | Some result \<Rightarrow> result # findAssessmentSlots patient clinicians)"

subsection \<open>\<open>findTherapySlots\<close>\<close>

definition therapySlotsOf :: "Clinician \<Rightarrow> int list" where
  "therapySlotsOf c =
     sort (map slot_date (filter (\<lambda>slot. slot_length slot = 60) (availableSlots c)))"

definition therapyFor :: "Patient \<Rightarrow> Clinician \<Rightarrow> TherapyAvailability option" where
  "therapyFor patient c =
     (if clinicianType c \<noteq> THERAPIST then None
      else if \<not> isClinicianEligible c patient then None
      else let therapySlots = therapySlotsOf c
           in if length therapySlots = 0 then None
              else let slotsByDay = groupByDay therapySlots [];
                       optimizedSlots =
                         sort (concat (map (\<lambda>(key, daySlots). optimizeSlots daySlots 60) slotsByDay));
                       available =
                         filter (\<lambda>slot. canAccommodateAppointments c [slot]) optimizedSlots
                   in if length available > 0
                      then Some \<lparr>therapy_clinician = c, therapy_availableSlots = available\<rparr>
                      else None)"

fun findTherapySlots :: "Patient \<Rightarrow> Clinician list \<Rightarrow> TherapyAvailability list" where
  "findTherapySlots patient [] = []"
| "findTherapySlots patient (c # clinicians) =
     (case therapyFor patient c of
        None \<Rightarrow> findTherapySlots patient clinicians
      | Some result \<Rightarrow> result # findTherapySlots patient clinicians)"

subsection \<open>Notions of the specification\<close>



subsection \<open>Auxiliary notions of the proofs\<close>



text \<open>The number of proposed instants on the day, and in the week, of an instant.\<close>

definition proposedOnDay :: "int list \<Rightarrow> int \<Rightarrow> nat" where
  "proposedOnDay dates t = length (filter (\<lambda>d. getStartOfDay d = getStartOfDay t) dates)"

definition proposedInWeek :: "int list \<Rightarrow> int \<Rightarrow> nat" where
  "proposedInWeek dates t = length (filter (\<lambda>d. getStartOfWeek d = getStartOfWeek t) dates)"

definition countOf :: "(int \<times> nat) list \<Rightarrow> int \<Rightarrow> nat" where
  "countOf counts k = (case map_of counts k of None \<Rightarrow> 0 | Some n \<Rightarrow> n)"

definition consumingTimes :: "Appointment list \<Rightarrow> int list" where
  "consumingTimes apps =
     map scheduledFor (filter (\<lambda>apt. status apt \<in> set COUNTABLE_STATUSES) apps)"

text \<open>The status partition of the specification.\<close>

definition exemptStatus :: "AppointmentStatus \<Rightarrow> bool" where
  "exemptStatus s = (s = CANCELLED \<or> s = NO_SHOW \<or> s = RE_SCHEDULED)"

definition consumingStatus :: "AppointmentStatus \<Rightarrow> bool" where
  "consumingStatus s = (s = UPCOMING \<or> s = OCCURRED \<or> s = LATE_CANCELLATION)"

definition statusPermuted :: "Appointment \<Rightarrow> Appointment \<Rightarrow> bool" where
  "statusPermuted a a' =
     (a' = a \<or>
      (consumingStatus (status a) \<and> consumingStatus (status a') \<and>
       a' = a\<lparr>status := status a'\<rparr>))"

text \<open>Clinicians of the test suite, for the concrete instances below.\<close>

definition mkAppointment :: "string \<Rightarrow> int \<Rightarrow> AppointmentStatus \<Rightarrow> Appointment" where
  "mkAppointment i t s =
     \<lparr>appointment_id = i, scheduledFor = t,
      appointmentType = ''ASSESSMENT_SESSION_1'', status = s\<rparr>"

definition psychologist :: Clinician where
  "psychologist =
     \<lparr>clinician_id = ''psychologist-1'', clinicianType = PSYCHOLOGIST,
      states = [''NY'', ''CA''], insurances = [''AETNA'', ''CIGNA''],
      maxDailyAppointments = 2, maxWeeklyAppointments = 8,
      availableSlots = [], appointments = []\<rparr>"

definition fourBooked :: Clinician where
  "fourBooked = psychologist
     \<lparr>maxDailyAppointments := 5,
      appointments :=
        [mkAppointment ''apt-1'' 1724058000000 OCCURRED,
         mkAppointment ''apt-2'' 1724061600000 OCCURRED,
         mkAppointment ''apt-3'' 1724076000000 UPCOMING,
         mkAppointment ''apt-4'' 1724083200000 UPCOMING]\<rparr>"

definition fiveBooked :: Clinician where
  "fiveBooked = fourBooked
     \<lparr>appointments :=
        appointments fourBooked @ [mkAppointment ''apt-5'' 1724090400000 UPCOMING]\<rparr>"

definition overbooked :: Clinician where
  "overbooked = psychologist
     \<lparr>maxDailyAppointments := 1,
      appointments :=
        [mkAppointment ''apt-1'' 1724061600000 UPCOMING,
         mkAppointment ''apt-2'' 1724076000000 UPCOMING]\<rparr>"

text \<open>Auxiliary notions for the pair search.\<close>

definition slotsOf :: "(int \<times> int list) list \<Rightarrow> int \<Rightarrow> int list" where
  "slotsOf m k = (case map_of m k of None \<Rightarrow> [] | Some xs \<Rightarrow> xs)"

definition groupStep :: "int \<Rightarrow> (int \<times> int list) list \<Rightarrow> (int \<times> int list) list" where
  "groupStep slot m =
     (let key = getStartOfDay slot;
          m1 = (if map_of m key = None then AList.update key [] m else m)
      in AList.update key ((case map_of m1 key of None \<Rightarrow> [] | Some xs \<Rightarrow> xs) @ [slot]) m1)"

definition eligibleDay :: "Clinician \<Rightarrow> int \<Rightarrow> bool" where
  "eligibleDay c t = (int (getAppointmentsOnDay c t + 1) \<le> maxDailyAppointments c)"

definition validPairsOf :: "Clinician \<Rightarrow> AssessmentSlotPair list" where
  "validPairsOf c =
     pairAllDays c (sort_key dayTime (eligibleDaysOf c (groupByDay (assessmentSlotsOf c) [])))"

text \<open>
  The scan of all pairs that the specification compares the search with: every two
  90-minute slots of the clinician in chronological order, on different days whose starts
  are at most seven days apart, that the clinician can accommodate together.
\<close>

definition naivePairs :: "Clinician \<Rightarrow> AssessmentSlotPair list" where
  "naivePairs c =
     (let candidates = map slot_date (filter (\<lambda>slot. slot_length slot = 90) (availableSlots c))
      in concat (map (\<lambda>a.
           map (\<lambda>b. \<lparr>session1 = a, session2 = b\<rparr>)
             (filter (\<lambda>b. a < b \<and> getStartOfDay a \<noteq> getStartOfDay b \<and>
                          getStartOfDay b - getStartOfDay a \<le> sevenDaysMs \<and>
                          canAccommodateAppointments c [a, b]) candidates)) candidates))"

definition naiveFindAssessmentSlots :: "Patient \<Rightarrow> Clinician list \<Rightarrow> ClinicianAvailability list" where
  "naiveFindAssessmentSlots patient clinicians =
     map (\<lambda>c. \<lparr>clinician = c, availableSlotPairs = naivePairs c\<rparr>)
       (filter (\<lambda>c. clinicianType c = PSYCHOLOGIST \<and> isClinicianEligible c patient \<and>
                     naivePairs c \<noteq> []) clinicians)"

text \<open>The reference fixture: the six slots of the README example.\<close>

definition readmePatient :: Patient where
  "readmePatient = \<lparr>patient_id = ''patient-1'', state = ''NY'', insurance = ''AETNA''\<rparr>"

definition mkSlot :: "string \<Rightarrow> int \<Rightarrow> int \<Rightarrow> AvailableAppointmentSlot" where
  "mkSlot i t n = \<lparr>slot_id = i, slot_date = t, slot_length = n\<rparr>"

definition testClinician1 :: Clinician where
  "testClinician1 =
     \<lparr>clinician_id = ''test-clinician-1'', clinicianType = PSYCHOLOGIST,
      states = [''NY''], insurances = [''AETNA''],
      maxDailyAppointments = 3, maxWeeklyAppointments = 10,
      availableSlots =
        [mkSlot ''test1-1'' 1724068800000 90,
         mkSlot ''test1-2'' 1724069700000 90,
         mkSlot ''test1-3'' 1724241600000 90,
         mkSlot ''test1-4'' 1724252400000 90,
         mkSlot ''test1-5'' 1724338800000 90,
         mkSlot ''test1-6'' 1724847300000 90],
      appointments = []\<rparr>"

definition readmePairs :: "AssessmentSlotPair list" where
  "readmePairs =
     [\<lparr>session1 = 1724068800000, session2 = 1724241600000\<rparr>,
      \<lparr>session1 = 1724068800000, session2 = 1724252400000\<rparr>,
      \<lparr>session1 = 1724069700000, session2 = 1724241600000\<rparr>,
      \<lparr>session1 = 1724069700000, session2 = 1724252400000\<rparr>,
      \<lparr>session1 = 1724068800000, session2 = 1724338800000\<rparr>,
      \<lparr>session1 = 1724069700000, session2 = 1724338800000\<rparr>,
      \<lparr>session1 = 1724241600000, session2 = 1724338800000\<rparr>,
      \<lparr>session1 = 1724252400000, session2 = 1724338800000\<rparr>,
      \<lparr>session1 = 1724241600000, session2 = 1724847300000\<rparr>,
      \<lparr>session1 = 1724252400000, session2 = 1724847300000\<rparr>,
      \<lparr>session1 = 1724338800000, session2 = 1724847300000\<rparr>]"

subsection \<open>A store model of the scheduler's objects\<close>

text \<open>
  For the claims about mutation the scheduler is embedded a second time, over an explicit
  store. The store is the list of the allocated cells; an address is an index into it.
  A cell is a \<open>Date\<close> object (its time value) or an array. \<open>alloc\<close> appends a cell and
  returns its address (\<open>new Date\<close>, an array literal, the arrays returned by
  \<open>filter\<close> and \<open>map\<close>); \<open>writeCell\<close> overwrites a cell (\<open>setUTCDate\<close>,
  \<open>setUTCHours\<close>, \<open>push\<close>, \<open>sort\<close>, which work in place); \<open>readCell\<close> reads one.
  The objects whose fields the source only reads (patient, clinician, slot, appointment,
  interval, day, pair, result entry) are values; their fields of type \<open>Date\<close> or array
  hold addresses. The two \<open>Map\<close>s are local association lists, from the day to the
  address of the array of its slots.

  A read at an address that holds a cell of another kind returns a default (time 0, the
  empty array); a program that type-checks never performs such a read. A loop over an
  array runs over the elements it holds when the loop begins.
\<close>

datatype SlotObj = SlotObj (so_id: string) (so_date: nat) (so_length: int)

datatype AppointmentObj =
  AppointmentObj (ao_id: string) (ao_scheduledFor: nat) (ao_type: string)
    (ao_status: AppointmentStatus)

datatype ClinicianObj =
  ClinicianObj (co_id: string) (co_clinicianType: ClinicianType) (co_states: "string list")
    (co_insurances: "string list") (co_maxDailyAppointments: int)
    (co_maxWeeklyAppointments: int) (co_availableSlots: nat) (co_appointments: nat)

datatype IntervalObj = IntervalObj (io_start: nat) (io_end: nat)

datatype DayObj = DayObj (do_dayKey: int) (do_dayTime: int) (do_slots: nat)

datatype PairObj = PairObj (po_session1: nat) (po_session2: nat)

datatype ResultObj = ResultObj (ro_clinician: ClinicianObj) (ro_availableSlotPairs: nat)

datatype TherapyObj = TherapyObj (to_clinician: ClinicianObj) (to_availableSlots: nat)

datatype cell =
    DateCell int
  | DateArray "nat list"
  | SlotArray "SlotObj list"
  | AppointmentArray "AppointmentObj list"
  | ClinicianArray "ClinicianObj list"
  | IntervalArray "IntervalObj list"
  | DayArray "DayObj list"
  | PairArray "PairObj list"
  | ResultArray "ResultObj list"
  | TherapyArray "TherapyObj list"

type_synonym store = "cell list"

definition alloc :: "cell \<Rightarrow> (store, nat) state" where
  "alloc c = State (\<lambda>s. (length s, s @ [c]))"

definition writeCell :: "nat \<Rightarrow> cell \<Rightarrow> (store, unit) state" where
  "writeCell r c = State (\<lambda>s. ((), s[r := c]))"

definition readCell :: "nat \<Rightarrow> (store, cell option) state" where
  "readCell r = State (\<lambda>s. (if r < length s then Some (s ! r) else None, s))"

definition getTime :: "nat \<Rightarrow> (store, int) state" where
  "getTime r = do {
     c \<leftarrow> readCell r;
     State_Monad.return (case c of Some (DateCell t) \<Rightarrow> t | _ \<Rightarrow> 0)
   }"

definition readDates :: "nat \<Rightarrow> (store, nat list) state" where
  "readDates r = do {
     c \<leftarrow> readCell r;
     State_Monad.return (case c of Some (DateArray xs) \<Rightarrow> xs | _ \<Rightarrow> [])
   }"

definition readSlots :: "nat \<Rightarrow> (store, SlotObj list) state" where
  "readSlots r = do {
     c \<leftarrow> readCell r;
     State_Monad.return (case c of Some (SlotArray xs) \<Rightarrow> xs | _ \<Rightarrow> [])
   }"

definition readAppointments :: "nat \<Rightarrow> (store, AppointmentObj list) state" where
  "readAppointments r = do {
     c \<leftarrow> readCell r;
     State_Monad.return (case c of Some (AppointmentArray xs) \<Rightarrow> xs | _ \<Rightarrow> [])
   }"

definition readClinicians :: "nat \<Rightarrow> (store, ClinicianObj list) state" where
  "readClinicians r = do {
     c \<leftarrow> readCell r;
     State_Monad.return (case c of Some (ClinicianArray xs) \<Rightarrow> xs | _ \<Rightarrow> [])
   }"

definition readIntervals :: "nat \<Rightarrow> (store, IntervalObj list) state" where
  "readIntervals r = do {
     c \<leftarrow> readCell r;
     State_Monad.return (case c of Some (IntervalArray xs) \<Rightarrow> xs | _ \<Rightarrow> [])
   }"

definition readDays :: "nat \<Rightarrow> (store, DayObj list) state" where
  "readDays r = do {
     c \<leftarrow> readCell r;
     State_Monad.return (case c of Some (DayArray xs) \<Rightarrow> xs | _ \<Rightarrow> [])
   }"

definition readPairs :: "nat \<Rightarrow> (store, PairObj list) state" where
  "readPairs r = do {
     c \<leftarrow> readCell r;
     State_Monad.return (case c of Some (PairArray xs) \<Rightarrow> xs | _ \<Rightarrow> [])
   }"

definition readResults :: "nat \<Rightarrow> (store, ResultObj list) state" where
  "readResults r = do {
     c \<leftarrow> readCell r;
     State_Monad.return (case c of Some (ResultArray xs) \<Rightarrow> xs | _ \<Rightarrow> [])
   }"

definition readTherapies :: "nat \<Rightarrow> (store, TherapyObj list) state" where
  "readTherapies r = do {
     c \<leftarrow> readCell r;
     State_Monad.return (case c of Some (TherapyArray xs) \<Rightarrow> xs | _ \<Rightarrow> [])
   }"

text \<open>\<open>push\<close> on the arrays the scheduler appends to.\<close>

definition pushDate :: "nat \<Rightarrow> nat \<Rightarrow> (store, unit) state" where
  "pushDate r x = do { xs \<leftarrow> readDates r; writeCell r (DateArray (xs @ [x])) }"

definition pushDay :: "nat \<Rightarrow> DayObj \<Rightarrow> (store, unit) state" where
  "pushDay r x = do { xs \<leftarrow> readDays r; writeCell r (DayArray (xs @ [x])) }"

definition pushPair :: "nat \<Rightarrow> PairObj \<Rightarrow> (store, unit) state" where
  "pushPair r x = do { xs \<leftarrow> readPairs r; writeCell r (PairArray (xs @ [x])) }"

definition pushResult :: "nat \<Rightarrow> ResultObj \<Rightarrow> (store, unit) state" where
  "pushResult r x = do { xs \<leftarrow> readResults r; writeCell r (ResultArray (xs @ [x])) }"

definition pushTherapy :: "nat \<Rightarrow> TherapyObj \<Rightarrow> (store, unit) state" where
  "pushTherapy r x = do { xs \<leftarrow> readTherapies r; writeCell r (TherapyArray (xs @ [x])) }"

text \<open>
  \<open>sort\<close> with a comparator on the time values: the times are read, the array is
  rewritten in place in stable order of the times.
\<close>

fun timesOf :: "nat list \<Rightarrow> (store, (int \<times> nat) list) state" where
  "timesOf [] = State_Monad.return []"
| "timesOf (d # ds) = do {
     t \<leftarrow> getTime d;
     rest \<leftarrow> timesOf ds;
     State_Monad.return ((t, d) # rest)
   }"

definition sortDates :: "nat \<Rightarrow> (store, unit) state" where
  "sortDates r = do {
     xs \<leftarrow> readDates r;
     keyed \<leftarrow> timesOf xs;
     writeCell r (DateArray (map snd (sort_key fst keyed)))
   }"

fun endTimesOf :: "IntervalObj list \<Rightarrow> (store, (int \<times> IntervalObj) list) state" where
  "endTimesOf [] = State_Monad.return []"
| "endTimesOf (itv # itvs) = do {
     t \<leftarrow> getTime (io_end itv);
     rest \<leftarrow> endTimesOf itvs;
     State_Monad.return ((t, itv) # rest)
   }"

definition sortIntervals :: "nat \<Rightarrow> (store, unit) state" where
  "sortIntervals r = do {
     xs \<leftarrow> readIntervals r;
     keyed \<leftarrow> endTimesOf xs;
     writeCell r (IntervalArray (map snd (sort_key fst keyed)))
   }"

definition sortDays :: "nat \<Rightarrow> (store, unit) state" where
  "sortDays r = do {
     xs \<leftarrow> readDays r;
     writeCell r (DayArray (sort_key do_dayTime xs))
   }"

subsection \<open>The scheduler on the store\<close>

fun mkIntervals :: "int \<Rightarrow> nat list \<Rightarrow> (store, IntervalObj list) state" where
  "mkIntervals durationMinutes [] = State_Monad.return []"
| "mkIntervals durationMinutes (d # ds) = do {
     t \<leftarrow> getTime d;
     e \<leftarrow> alloc (DateCell (t + durationMinutes * 60000));
     rest \<leftarrow> mkIntervals durationMinutes ds;
     State_Monad.return (IntervalObj d e # rest)
   }"

fun selectLoop_st :: "nat \<Rightarrow> int option \<Rightarrow> IntervalObj list \<Rightarrow> (store, unit) state" where
  "selectLoop_st selected lastEnd [] = State_Monad.return ()"
| "selectLoop_st selected lastEnd (itv # intervals) = do {
     t \<leftarrow> getTime (io_start itv);
     if notBefore t lastEnd
     then do {
       pushDate selected (io_start itv);
       e \<leftarrow> getTime (io_end itv);
       selectLoop_st selected (Some e) intervals
     }
     else selectLoop_st selected lastEnd intervals
   }"

definition optimizeSlots_st :: "nat \<Rightarrow> int \<Rightarrow> (store, nat) state" where
  "optimizeSlots_st dates durationMinutes = do {
     ds \<leftarrow> readDates dates;
     if length ds = 0 then alloc (DateArray [])
     else do {
       itvs \<leftarrow> mkIntervals durationMinutes ds;
       intervals \<leftarrow> alloc (IntervalArray itvs);
       sortIntervals intervals;
       selected \<leftarrow> alloc (DateArray []);
       sorted_itvs \<leftarrow> readIntervals intervals;
       selectLoop_st selected None sorted_itvs;
       State_Monad.return selected
     }
   }"

definition isClinicianEligible_st :: "ClinicianObj \<Rightarrow> Patient \<Rightarrow> bool" where
  "isClinicianEligible_st c p =
     (state p \<in> set (co_states c) \<and> insurance p \<in> set (co_insurances c))"

definition getStartOfDay_st :: "nat \<Rightarrow> (store, nat) state" where
  "getStartOfDay_st date = do {
     t \<leftarrow> getTime date;
     d \<leftarrow> alloc (DateCell t);
     t1 \<leftarrow> getTime d;
     writeCell d (DateCell (setUTCHours t1 0 0 0 0));
     State_Monad.return d
   }"

definition getStartOfWeek_st :: "nat \<Rightarrow> (store, nat) state" where
  "getStartOfWeek_st date = do {
     t \<leftarrow> getTime date;
     d \<leftarrow> alloc (DateCell t);
     t0 \<leftarrow> getTime d;
     let day = getUTCDay t0;
     let diff = getUTCDate t0 - day + (if day = 0 then - 6 else 1);
     writeCell d (DateCell (setUTCDate t0 diff));
     t1 \<leftarrow> getTime d;
     writeCell d (DateCell (setUTCHours t1 0 0 0 0));
     State_Monad.return d
   }"

fun filterInRange :: "int \<Rightarrow> int \<Rightarrow> AppointmentObj list \<Rightarrow> (store, AppointmentObj list) state" where
  "filterInRange lo hi [] = State_Monad.return []"
| "filterInRange lo hi (apt # rest) = do {
     aptTime \<leftarrow> getTime (ao_scheduledFor apt);
     let inTimeRange = (lo \<le> aptTime \<and> aptTime < hi);
     kept \<leftarrow> filterInRange lo hi rest;
     State_Monad.return
       (if inTimeRange \<and> ao_status apt \<in> set COUNTABLE_STATUSES then apt # kept else kept)
   }"

definition getAppointmentsOnDay_st :: "ClinicianObj \<Rightarrow> nat \<Rightarrow> (store, nat) state" where
  "getAppointmentsOnDay_st c date = do {
     d \<leftarrow> getStartOfDay_st date;
     dayStart \<leftarrow> getTime d;
     let dayEnd = dayStart + 24 * 60 * 60 * 1000;
     apps \<leftarrow> readAppointments (co_appointments c);
     kept \<leftarrow> filterInRange dayStart dayEnd apps;
     filtered \<leftarrow> alloc (AppointmentArray kept);
     xs \<leftarrow> readAppointments filtered;
     State_Monad.return (length xs)
   }"

definition getAppointmentsInWeek_st :: "ClinicianObj \<Rightarrow> nat \<Rightarrow> (store, nat) state" where
  "getAppointmentsInWeek_st c date = do {
     d \<leftarrow> getStartOfWeek_st date;
     weekStart \<leftarrow> getTime d;
     let weekEnd = weekStart + 7 * 24 * 60 * 60 * 1000;
     apps \<leftarrow> readAppointments (co_appointments c);
     kept \<leftarrow> filterInRange weekStart weekEnd apps;
     filtered \<leftarrow> alloc (AppointmentArray kept);
     xs \<leftarrow> readAppointments filtered;
     State_Monad.return (length xs)
   }"

fun countByKey_st ::
  "(nat \<Rightarrow> (store, nat) state) \<Rightarrow> nat list \<Rightarrow> (int \<times> nat) list \<Rightarrow> (store, (int \<times> nat) list) state" where
  "countByKey_st startOf [] counts = State_Monad.return counts"
| "countByKey_st startOf (date # dates) counts = do {
     d \<leftarrow> startOf date;
     key \<leftarrow> getTime d;
     countByKey_st startOf dates
       (AList.update key ((case map_of counts key of None \<Rightarrow> 0 | Some n \<Rightarrow> n) + 1) counts)
   }"

fun checkDailyLimits_st :: "ClinicianObj \<Rightarrow> (int \<times> nat) list \<Rightarrow> (store, bool) state" where
  "checkDailyLimits_st c [] = State_Monad.return True"
| "checkDailyLimits_st c ((key, count) # rest) = do {
     representativeDate \<leftarrow> alloc (DateCell key);
     existingCount \<leftarrow> getAppointmentsOnDay_st c representativeDate;
     if int (existingCount + count) > co_maxDailyAppointments c then State_Monad.return False
     else checkDailyLimits_st c rest
   }"

fun checkWeeklyLimits_st :: "ClinicianObj \<Rightarrow> (int \<times> nat) list \<Rightarrow> (store, bool) state" where
  "checkWeeklyLimits_st c [] = State_Monad.return True"
| "checkWeeklyLimits_st c ((weekKey, count) # rest) = do {
     representativeDate \<leftarrow> alloc (DateCell weekKey);
     appointmentsInWeek \<leftarrow> getAppointmentsInWeek_st c representativeDate;
     if int (appointmentsInWeek + count) > co_maxWeeklyAppointments c
     then State_Monad.return False
     else checkWeeklyLimits_st c rest
   }"

definition canAccommodateAppointments_st :: "ClinicianObj \<Rightarrow> nat \<Rightarrow> (store, bool) state" where
  "canAccommodateAppointments_st c dates = do {
     ds \<leftarrow> readDates dates;
     countsByDay \<leftarrow> countByKey_st getStartOfDay_st ds [];
     dailyOk \<leftarrow> checkDailyLimits_st c countsByDay;
     if \<not> dailyOk then State_Monad.return False
     else do {
       ds' \<leftarrow> readDates dates;
       countsByWeek \<leftarrow> countByKey_st getStartOfWeek_st ds' [];
       weeklyOk \<leftarrow> checkWeeklyLimits_st c countsByWeek;
       if \<not> weeklyOk then State_Monad.return False else State_Monad.return True
     }
   }"

text \<open>
  \<open>slotsByDay\<close> maps a day to the reference of the array of its slots: the entries are
  kept as an association list, the arrays are in the store.
\<close>

fun groupByDay_st :: "nat list \<Rightarrow> (int \<times> nat) list \<Rightarrow> (store, (int \<times> nat) list) state" where
  "groupByDay_st [] slotsByDay = State_Monad.return slotsByDay"
| "groupByDay_st (slot # rest) slotsByDay = do {
     d \<leftarrow> getStartOfDay_st slot;
     key \<leftarrow> getTime d;
     m \<leftarrow> (if map_of slotsByDay key = None
           then do {
             arr \<leftarrow> alloc (DateArray []);
             State_Monad.return (AList.update key arr slotsByDay)
           }
           else State_Monad.return slotsByDay);
     (case map_of m key of
        None \<Rightarrow> State_Monad.return ()
      | Some arr \<Rightarrow> pushDate arr slot);
     groupByDay_st rest m
   }"

fun eligibleDaysLoop :: "ClinicianObj \<Rightarrow> nat \<Rightarrow> (int \<times> nat) list \<Rightarrow> (store, unit) state" where
  "eligibleDaysLoop c eligibleDays [] = State_Monad.return ()"
| "eligibleDaysLoop c eligibleDays ((key, daySlots) # rest) = do {
     representativeDate \<leftarrow> alloc (DateCell key);
     existingCount \<leftarrow> getAppointmentsOnDay_st c representativeDate;
     t \<leftarrow> getTime representativeDate;
     (if int (existingCount + 1) \<le> co_maxDailyAppointments c
      then pushDay eligibleDays (DayObj key t daySlots)
      else State_Monad.return ());
     eligibleDaysLoop c eligibleDays rest
   }"

fun pairSlot1 :: "ClinicianObj \<Rightarrow> nat \<Rightarrow> nat \<Rightarrow> nat list \<Rightarrow> (store, unit) state" where
  "pairSlot1 c validPairs slot1 [] = State_Monad.return ()"
| "pairSlot1 c validPairs slot1 (slot2 # rest) = do {
     both \<leftarrow> alloc (DateArray [slot1, slot2]);
     ok \<leftarrow> canAccommodateAppointments_st c both;
     (if \<not> ok then State_Monad.return ()
      else pushPair validPairs (PairObj slot1 slot2));
     pairSlot1 c validPairs slot1 rest
   }"

fun pairSlots_st :: "ClinicianObj \<Rightarrow> nat \<Rightarrow> nat list \<Rightarrow> nat \<Rightarrow> (store, unit) state" where
  "pairSlots_st c validPairs [] slots2 = State_Monad.return ()"
| "pairSlots_st c validPairs (slot1 # rest) slots2 = do {
     s2 \<leftarrow> readDates slots2;
     pairSlot1 c validPairs slot1 s2;
     pairSlots_st c validPairs rest slots2
   }"

fun pairWithLaterDays_st :: "ClinicianObj \<Rightarrow> nat \<Rightarrow> DayObj \<Rightarrow> DayObj list \<Rightarrow> (store, unit) state" where
  "pairWithLaterDays_st c validPairs day1 [] = State_Monad.return ()"
| "pairWithLaterDays_st c validPairs day1 (day2 # rest) =
     (let daysDiff = do_dayTime day2 - do_dayTime day1
      in if daysDiff > sevenDaysMs then State_Monad.return ()
         else do {
           s1 \<leftarrow> readDates (do_slots day1);
           pairSlots_st c validPairs s1 (do_slots day2);
           pairWithLaterDays_st c validPairs day1 rest
         })"

fun pairAllDays_st :: "ClinicianObj \<Rightarrow> nat \<Rightarrow> DayObj list \<Rightarrow> (store, unit) state" where
  "pairAllDays_st c validPairs [] = State_Monad.return ()"
| "pairAllDays_st c validPairs (day1 # rest) = do {
     pairWithLaterDays_st c validPairs day1 rest;
     pairAllDays_st c validPairs rest
   }"

definition assessmentFor_st :: "Patient \<Rightarrow> nat \<Rightarrow> ClinicianObj \<Rightarrow> (store, unit) state" where
  "assessmentFor_st patient results c =
     (if co_clinicianType c \<noteq> PSYCHOLOGIST then State_Monad.return ()
      else if \<not> isClinicianEligible_st c patient then State_Monad.return ()
      else do {
        all_slots \<leftarrow> readSlots (co_availableSlots c);
        filtered \<leftarrow> alloc (SlotArray (filter (\<lambda>slot. so_length slot = 90) all_slots));
        kept \<leftarrow> readSlots filtered;
        assessmentSlots \<leftarrow> alloc (DateArray (map so_date kept));
        sortDates assessmentSlots;
        slots \<leftarrow> readDates assessmentSlots;
        if length slots < 2 then State_Monad.return ()
        else do {
          slotsByDay \<leftarrow> groupByDay_st slots [];
          eligibleDays \<leftarrow> alloc (DayArray []);
          eligibleDaysLoop c eligibleDays slotsByDay;
          days \<leftarrow> readDays eligibleDays;
          if length days < 2 then State_Monad.return ()
          else do {
            sortDays eligibleDays;
            validPairs \<leftarrow> alloc (PairArray []);
            sorted_days \<leftarrow> readDays eligibleDays;
            pairAllDays_st c validPairs sorted_days;
            pairs \<leftarrow> readPairs validPairs;
            if length pairs > 0 then pushResult results (ResultObj c validPairs)
            else State_Monad.return ()
          }
        }
      })"

fun assessmentLoop :: "Patient \<Rightarrow> nat \<Rightarrow> ClinicianObj list \<Rightarrow> (store, unit) state" where
  "assessmentLoop patient results [] = State_Monad.return ()"
| "assessmentLoop patient results (c # rest) = do {
     assessmentFor_st patient results c;
     assessmentLoop patient results rest
   }"

definition findAssessmentSlots_st :: "Patient \<Rightarrow> nat \<Rightarrow> (store, nat) state" where
  "findAssessmentSlots_st patient clinicians = do {
     results \<leftarrow> alloc (ResultArray []);
     cs \<leftarrow> readClinicians clinicians;
     assessmentLoop patient results cs;
     State_Monad.return results
   }"

fun pushAll :: "nat \<Rightarrow> nat list \<Rightarrow> (store, unit) state" where
  "pushAll r [] = State_Monad.return ()"
| "pushAll r (x # xs) = do { pushDate r x; pushAll r xs }"

fun optimizeDays :: "nat \<Rightarrow> (int \<times> nat) list \<Rightarrow> (store, unit) state" where
  "optimizeDays optimizedSlots [] = State_Monad.return ()"
| "optimizeDays optimizedSlots ((key, daySlots) # rest) = do {
     optimized \<leftarrow> optimizeSlots_st daySlots 60;
     xs \<leftarrow> readDates optimized;
     pushAll optimizedSlots xs;
     optimizeDays optimizedSlots rest
   }"

fun filterAccommodated :: "ClinicianObj \<Rightarrow> nat list \<Rightarrow> (store, nat list) state" where
  "filterAccommodated c [] = State_Monad.return []"
| "filterAccommodated c (slot # rest) = do {
     single \<leftarrow> alloc (DateArray [slot]);
     ok \<leftarrow> canAccommodateAppointments_st c single;
     kept \<leftarrow> filterAccommodated c rest;
     State_Monad.return (if ok then slot # kept else kept)
   }"

definition therapyFor_st :: "Patient \<Rightarrow> nat \<Rightarrow> ClinicianObj \<Rightarrow> (store, unit) state" where
  "therapyFor_st patient results c =
     (if co_clinicianType c \<noteq> THERAPIST then State_Monad.return ()
      else if \<not> isClinicianEligible_st c patient then State_Monad.return ()
      else do {
        all_slots \<leftarrow> readSlots (co_availableSlots c);
        filtered \<leftarrow> alloc (SlotArray (filter (\<lambda>slot. so_length slot = 60) all_slots));
        kept \<leftarrow> readSlots filtered;
        therapySlots \<leftarrow> alloc (DateArray (map so_date kept));
        sortDates therapySlots;
        slots \<leftarrow> readDates therapySlots;
        if length slots = 0 then State_Monad.return ()
        else do {
          slotsByDay \<leftarrow> groupByDay_st slots [];
          optimizedSlots \<leftarrow> alloc (DateArray []);
          optimizeDays optimizedSlots slotsByDay;
          sortDates optimizedSlots;
          candidates \<leftarrow> readDates optimizedSlots;
          keptSlots \<leftarrow> filterAccommodated c candidates;
          available \<leftarrow> alloc (DateArray keptSlots);
          xs \<leftarrow> readDates available;
          if length xs > 0 then pushTherapy results (TherapyObj c available)
          else State_Monad.return ()
        }
      })"

fun therapyLoop :: "Patient \<Rightarrow> nat \<Rightarrow> ClinicianObj list \<Rightarrow> (store, unit) state" where
  "therapyLoop patient results [] = State_Monad.return ()"
| "therapyLoop patient results (c # rest) = do {
     therapyFor_st patient results c;
     therapyLoop patient results rest
   }"

definition findTherapySlots_st :: "Patient \<Rightarrow> nat \<Rightarrow> (store, nat) state" where
  "findTherapySlots_st patient clinicians = do {
     results \<leftarrow> alloc (TherapyArray []);
     cs \<leftarrow> readClinicians clinicians;
     therapyLoop patient results cs;
     State_Monad.return results
   }"

definition frames :: "nat \<Rightarrow> (store, 'a) state \<Rightarrow> ('a \<Rightarrow> bool) \<Rightarrow> bool" where
  "frames n m Q =
     (\<forall>s. n \<le> length s \<longrightarrow>
        (case run_state m s of
           (v, s') \<Rightarrow> length s \<le> length s' \<and> take n s' = take n s \<and> Q v))"

text \<open>The time values behind the addresses of an array of dates, and a small store.\<close>

definition timeAt :: "store \<Rightarrow> nat \<Rightarrow> int" where
  "timeAt s r = fst (run_state (getTime r) s)"

definition datesAt :: "store \<Rightarrow> nat \<Rightarrow> int list" where
  "datesAt s r = map (timeAt s) (fst (run_state (readDates r) s))"

definition smallStore :: store where
  "smallStore =
     [DateCell 1724069700000, DateCell 1724068800000, DateCell 1724074200000,
      DateArray [0, 1, 2]]"

text \<open>
  The entries of an array of results refer to arrays (of pairs, of slots) at addresses
  from \<open>n\<close> on.
\<close>

definition freshEntries :: "nat \<Rightarrow> cell \<Rightarrow> bool" where
  "freshEntries n c =
     (case c of
        ResultArray xs \<Rightarrow> list_all (\<lambda>e. n \<le> ro_availableSlotPairs e) xs
      | TherapyArray xs \<Rightarrow> list_all (\<lambda>e. n \<le> to_availableSlots e) xs
      | _ \<Rightarrow> False)"

definition maintains :: "nat \<Rightarrow> nat \<Rightarrow> (store, 'a) state \<Rightarrow> ('a \<Rightarrow> bool) \<Rightarrow> bool" where
  "maintains n r m Q =
     (\<forall>s. r < length s \<and> freshEntries n (s ! r) \<longrightarrow>
        (case run_state m s of
           (v, s') \<Rightarrow> r < length s' \<and> freshEntries n (s' ! r) \<and> Q v))"

subsection \<open>The range of \<open>Date\<close>\<close>

text \<open>
  A \<open>Date\<close> holds a time value of at most \<open>8.64e15\<close> ms in absolute value, or it is
  invalid and its time value is \<open>NaN\<close>: every constructor and setter ends with the
  abstract operation \<open>TimeClip\<close>. The functions named with the suffix \<open>_clipped\<close>
  are the functions of the scheduler on such dates. A \<open>Date\<close> that may be invalid is
  an \<open>int option\<close>, \<open>None\<close> the invalid one; a setter applied to an invalid date
  leaves it invalid. The dates passed to the scheduler are valid ones, so the arguments
  remain integers, constrained by \<open>validTime\<close> where a property needs it.
\<close>

definition maxTimeValue :: int where
  "maxTimeValue = 8640000000000000"

definition validTime :: "int \<Rightarrow> bool" where
  "validTime t = (- maxTimeValue \<le> t \<and> t \<le> maxTimeValue)"

definition TimeClip :: "int \<Rightarrow> int option" where
  "TimeClip t = (if \<bar>t\<bar> > maxTimeValue then None else Some t)"

definition setUTCDate_clipped :: "int option \<Rightarrow> int \<Rightarrow> int option" where
  "setUTCDate_clipped d dt =
     (case d of None \<Rightarrow> None | Some t \<Rightarrow> TimeClip (setUTCDate t dt))"

definition setUTCHours_clipped :: "int option \<Rightarrow> int \<Rightarrow> int \<Rightarrow> int \<Rightarrow> int \<Rightarrow> int option" where
  "setUTCHours_clipped d h m s milli =
     (case d of None \<Rightarrow> None | Some t \<Rightarrow> TimeClip (setUTCHours t h m s milli))"

definition getStartOfDay_clipped :: "int \<Rightarrow> int option" where
  "getStartOfDay_clipped date = (let d = Some date in setUTCHours_clipped d 0 0 0 0)"

definition getStartOfWeek_clipped :: "int \<Rightarrow> int option" where
  "getStartOfWeek_clipped date =
     (let d = Some date;
          day = getUTCDay date;
          diff = getUTCDate date - day + (if day = 0 then - 6 else 1);
          d1 = setUTCDate_clipped d diff
      in setUTCHours_clipped d1 0 0 0 0)"

text \<open>
  The first Monday midnight of the range: the least time value, \<open>-8.64e15\<close>, is the
  midnight that begins a Tuesday, so the Monday before it is not a \<open>Date\<close>.
\<close>

definition firstMonday :: int where
  "firstMonday = - maxTimeValue + 6 * msPerDay"

text \<open>
  \<open>toISOString\<close> throws a \<open>RangeError\<close> on an invalid date and the scheduler
  catches nothing, so \<open>canAccommodateAppointments\<close> then ends with that error: its
  result is a \<open>js_error + bool\<close>. The string of a valid date determines the date
  (\<open>new Date(key)\<close> gives it back), so the keys of the two \<open>Map\<close>s are time
  values. A comparison with \<open>NaN\<close> is false: from an invalid start of day or week no
  appointment is counted. The instants of the booked appointments are valid dates.
\<close>

datatype js_error = RangeError

definition toISOString :: "int option \<Rightarrow> js_error + int" where
  "toISOString d = (case d of None \<Rightarrow> Inl RangeError | Some t \<Rightarrow> Inr t)"

definition getAppointmentsOnDay_clipped :: "Clinician \<Rightarrow> int \<Rightarrow> nat" where
  "getAppointmentsOnDay_clipped c date =
     (case getStartOfDay_clipped date of
        None \<Rightarrow> 0
      | Some dayStart \<Rightarrow>
          (let dayEnd = dayStart + 24 * 60 * 60 * 1000
           in length (filter (\<lambda>apt.
                let aptTime = scheduledFor apt;
                    inTimeRange = (dayStart \<le> aptTime \<and> aptTime < dayEnd)
                in inTimeRange \<and> status apt \<in> set COUNTABLE_STATUSES) (appointments c))))"

definition getAppointmentsInWeek_clipped :: "Clinician \<Rightarrow> int \<Rightarrow> nat" where
  "getAppointmentsInWeek_clipped c date =
     (case getStartOfWeek_clipped date of
        None \<Rightarrow> 0
      | Some weekStart \<Rightarrow>
          (let weekEnd = weekStart + 7 * 24 * 60 * 60 * 1000
           in length (filter (\<lambda>apt.
                let aptTime = scheduledFor apt;
                    inTimeRange = (weekStart \<le> aptTime \<and> aptTime < weekEnd)
                in inTimeRange \<and> status apt \<in> set COUNTABLE_STATUSES) (appointments c))))"

fun countByKey_clipped ::
  "(int \<Rightarrow> int option) \<Rightarrow> int list \<Rightarrow> (int \<times> nat) list \<Rightarrow> js_error + (int \<times> nat) list" where
  "countByKey_clipped startOf [] counts = Inr counts"
| "countByKey_clipped startOf (date # dates) counts =
     (case toISOString (startOf date) of
        Inl e \<Rightarrow> Inl e
      | Inr key \<Rightarrow>
          countByKey_clipped startOf dates
            (AList.update key
               ((case map_of counts key of None \<Rightarrow> 0 | Some n \<Rightarrow> n) + 1) counts))"

fun checkDailyLimits_clipped :: "Clinician \<Rightarrow> (int \<times> nat) list \<Rightarrow> bool" where
  "checkDailyLimits_clipped c [] = True"
| "checkDailyLimits_clipped c ((key, count) # rest) =
     (let representativeDate = key;
          existingCount = getAppointmentsOnDay_clipped c representativeDate
      in if int (existingCount + count) > maxDailyAppointments c then False
         else checkDailyLimits_clipped c rest)"

fun checkWeeklyLimits_clipped :: "Clinician \<Rightarrow> (int \<times> nat) list \<Rightarrow> bool" where
  "checkWeeklyLimits_clipped c [] = True"
| "checkWeeklyLimits_clipped c ((weekKey, count) # rest) =
     (let representativeDate = weekKey;
          appointmentsInWeek = getAppointmentsInWeek_clipped c representativeDate
      in if int (appointmentsInWeek + count) > maxWeeklyAppointments c then False
         else checkWeeklyLimits_clipped c rest)"

definition canAccommodateAppointments_clipped :: "Clinician \<Rightarrow> int list \<Rightarrow> js_error + bool" where
  "canAccommodateAppointments_clipped c dates =
     (case countByKey_clipped getStartOfDay_clipped dates [] of
        Inl e \<Rightarrow> Inl e
      | Inr countsByDay \<Rightarrow>
          if \<not> checkDailyLimits_clipped c countsByDay then Inr False
          else (case countByKey_clipped getStartOfWeek_clipped dates [] of
                  Inl e \<Rightarrow> Inl e
                | Inr countsByWeek \<Rightarrow>
                    if \<not> checkWeeklyLimits_clipped c countsByWeek then Inr False
                    else Inr True))"

text \<open>
  The counts the specification speaks of, defined without the calendar functions of the
  code: the UTC day of an instant is its day number \<open>Day\<close>, its week, from Monday to
  Sunday, the number \<open>weekOf\<close> (day \<open>-3\<close>, 1969-12-29, was a Monday). Counted
  are the appointments whose status consumes capacity, and the proposed instants, of the
  same day or week.
\<close>

definition weekOf :: "int \<Rightarrow> int" where
  "weekOf t = (Day t + 3) div 7"

definition consumingOnDay :: "Clinician \<Rightarrow> int \<Rightarrow> nat" where
  "consumingOnDay c t =
     length (filter (\<lambda>a. consumingStatus (status a) \<and> Day (scheduledFor a) = Day t)
       (appointments c))"

definition consumingInWeek :: "Clinician \<Rightarrow> int \<Rightarrow> nat" where
  "consumingInWeek c t =
     length (filter (\<lambda>a. consumingStatus (status a) \<and> weekOf (scheduledFor a) = weekOf t)
       (appointments c))"

definition instantsOnDay :: "int list \<Rightarrow> int \<Rightarrow> nat" where
  "instantsOnDay dates t = length (filter (\<lambda>d. Day d = Day t) dates)"

definition instantsInWeek :: "int list \<Rightarrow> int \<Rightarrow> nat" where
  "instantsInWeek dates t = length (filter (\<lambda>d. weekOf d = weekOf t) dates)"

text \<open>
  A clinician with a weekly limit of 2 and two upcoming appointments in the week of
  Monday 2024-08-19, on 2024-08-20 and 2024-08-23.
\<close>

definition weekBooked :: Clinician where
  "weekBooked = psychologist
     \<lparr>maxWeeklyAppointments := 2,
      appointments :=
        [mkAppointment ''apt-1'' 1724148000000 UPCOMING,
         mkAppointment ''apt-2'' 1724407200000 UPCOMING]\<rparr>"














section \<open>Properties\<close>

subsection \<open>The interval optimizer\<close>












lemma fixture_optimize:
  "optimizeSlots [1724068800000, 1724069700000, 1724070600000, 1724071500000,
                  1724072400000, 1724073300000, 1724074200000] 90
     = [1724068800000, 1724074200000]"
  by (simp add: optimizeSlots_def mkInterval_def)


subsection \<open>Calendar boundaries\<close>

lemma MonthFromTime_range: "0 \<le> MonthFromTime t \<and> MonthFromTime t \<le> 11"
  by (simp add: MonthFromTime_def Let_def)

lemma MakeDay_of_month:
  "MakeDay (YearFromTime t) (MonthFromTime t) dt =
     DayFromYear (YearFromTime t) + firstDayOfMonth (MonthFromTime t) (InLeapYear t) + dt - 1"
proof -
  have "MonthFromTime t div 12 = 0" "MonthFromTime t mod 12 = MonthFromTime t"
    using MonthFromTime_range [of t] by simp_all
  then show ?thesis by (simp add: MakeDay_def InLeapYear_def)
qed

lemma setUTCDate_shift: "setUTCDate t (getUTCDate t + k) = t + k * msPerDay"
proof -
  have "MakeDay (YearFromTime t) (MonthFromTime t) (getUTCDate t + k) = Day t + k"
    by (simp add: MakeDay_of_month getUTCDate_def DateFromTime_def DayWithinYear_def)
  then have "setUTCDate t (getUTCDate t + k) = (Day t + k) * msPerDay + t mod msPerDay"
    by (simp add: setUTCDate_def MakeDate_def TimeWithinDay_def)
  also have "\<dots> = t + k * msPerDay"
    by (simp add: Day_def algebra_simps)
  finally show ?thesis .
qed

lemma getStartOfDay_eq: "getStartOfDay t = Day t * msPerDay"
  by (simp add: getStartOfDay_def setUTCHours_def MakeDate_def MakeTime_def)

lemma Day_shift: "Day (t + k * msPerDay) = Day t + k"
  by (simp add: Day_def msPerDay_def)

lemma WeekDay_range: "0 \<le> WeekDay t \<and> WeekDay t < 7"
  by (simp add: WeekDay_def)

lemma getStartOfWeek_eq: "getStartOfWeek t = (Day t - (WeekDay t + 6) mod 7) * msPerDay"
proof -
  define k where "k = - WeekDay t + (if WeekDay t = 0 then - 6 else 1)"
  have k: "k = - ((WeekDay t + 6) mod 7)"
    using WeekDay_range [of t] unfolding k_def by presburger
  have "getUTCDate t - WeekDay t + (if WeekDay t = 0 then - 6 else 1) = getUTCDate t + k"
    by (simp add: k_def)
  then have "getStartOfWeek t = setUTCHours (setUTCDate t (getUTCDate t + k)) 0 0 0 0"
    by (simp only: getStartOfWeek_def Let_def getUTCDay_def)
  also have "\<dots> = Day (t + k * msPerDay) * msPerDay"
    by (simp add: setUTCDate_shift setUTCHours_def MakeDate_def MakeTime_def)
  also have "\<dots> = (Day t + k) * msPerDay"
    by (simp only: Day_shift)
  also have "\<dots> = (Day t - (WeekDay t + 6) mod 7) * msPerDay"
    by (simp add: k)
  finally show ?thesis .
qed

lemma Day_bounds: "Day t * msPerDay \<le> t \<and> t < Day t * msPerDay + msPerDay"
proof -
  have pos: "0 < msPerDay" by (simp add: msPerDay_def)
  have "t div msPerDay * msPerDay + t mod msPerDay = t"
    by (rule div_mult_mod_eq)
  moreover have "0 \<le> t mod msPerDay"
    using pos by (rule pos_mod_sign)
  moreover have "t mod msPerDay < msPerDay"
    using pos by (rule pos_mod_bound)
  ultimately show ?thesis unfolding Day_def by linarith
qed

lemma Day_of_midnight: "Day (n * msPerDay) = n"
  by (simp add: Day_def msPerDay_def)

lemma weekOffset_range: "0 \<le> (WeekDay t + 6) mod 7 \<and> (WeekDay t + 6) mod 7 \<le> 6"
proof -
  have "(WeekDay t + 6) mod 7 < 7" by (rule pos_mod_bound) simp
  moreover have "0 \<le> (WeekDay t + 6) mod 7" by (rule pos_mod_sign) simp
  ultimately show ?thesis by linarith
qed

text \<open>
  On unbounded time values, for every instant \<open>t\<close>, \<open>getStartOfWeek t\<close> is a midnight
  (00:00:00.000 UTC), it is a Monday, and \<open>t\<close> lies in the seven days that begin
  there: it is the Monday of the week of \<open>t\<close>, weeks running from Monday to Sunday.
  For a Sunday it is the Monday six days earlier. No case depends on the month or year
  of either day.
\<close>

lemma getStartOfWeek_monday:
  "TimeWithinDay (getStartOfWeek t) = 0 \<and>
   WeekDay (getStartOfWeek t) = 1 \<and>
   getStartOfWeek t \<le> t \<and> t < getStartOfWeek t + 7 * msPerDay \<and>
   (WeekDay t = 0 \<longrightarrow> Day (getStartOfWeek t) = Day t - 6)"
proof -
  let ?m = "(WeekDay t + 6) mod 7"
  have r: "getStartOfWeek t = (Day t - ?m) * msPerDay" by (rule getStartOfWeek_eq)
  have d: "Day (getStartOfWeek t) = Day t - ?m"
    unfolding r by (rule Day_of_midnight)
  have 1: "TimeWithinDay (getStartOfWeek t) = 0"
    by (simp add: r TimeWithinDay_def)
  have 2: "WeekDay (getStartOfWeek t) = 1"
    unfolding WeekDay_def d by presburger
  have pos: "0 < msPerDay" by (simp add: msPerDay_def)
  have r': "getStartOfWeek t = Day t * msPerDay - ?m * msPerDay"
    unfolding r by (rule left_diff_distrib)
  have lo: "0 \<le> ?m * msPerDay"
    using weekOffset_range [of t] pos by (intro mult_nonneg_nonneg) simp_all
  have "?m * msPerDay \<le> 6 * msPerDay"
    using weekOffset_range [of t] pos by (intro mult_right_mono) simp_all
  then have 4: "t < getStartOfWeek t + 7 * msPerDay"
    using Day_bounds [of t] unfolding r' by linarith
  have 3: "getStartOfWeek t \<le> t"
    using Day_bounds [of t] lo unfolding r' by linarith
  have 5: "WeekDay t = 0 \<longrightarrow> Day (getStartOfWeek t) = Day t - 6"
    by (simp add: d)
  show ?thesis using 1 2 3 4 5 by blast
qed

text \<open>
  2023-01-01T08:30Z is a Sunday; its week begins on Monday 2022-12-26, in the previous
  month and year. The values are computed through the calendar operations.
\<close>

lemma sunday_2023_01_01:
  "WeekDay 1672561800000 = 0 \<and>
   YearFromTime 1672561800000 = 2023 \<and> MonthFromTime 1672561800000 = 0 \<and>
   DateFromTime 1672561800000 = 1 \<and>
   getStartOfWeek 1672561800000 = 1672012800000 \<and>
   YearFromTime 1672012800000 = 2022 \<and> MonthFromTime 1672012800000 = 11 \<and>
   DateFromTime 1672012800000 = 26"
  by code_simp

subsection \<open>Capacity accounting\<close>

lemma countByKey_keys:
  "fst ` set (countByKey key ds m) = fst ` set m \<union> key ` set ds"
  by (induction ds arbitrary: m) (auto simp: dom_update)

lemma countByKey_distinct:
  "distinct (map fst m) \<Longrightarrow> distinct (map fst (countByKey key ds m))"
  by (induction ds arbitrary: m) (simp_all add: distinct_update)

lemma countByKey_count:
  "countOf (countByKey key ds m) k = countOf m k + length (filter (\<lambda>d. key d = k) ds)"
proof (induction ds arbitrary: m)
  case Nil
  then show ?case by simp
next
  case (Cons d ds)
  let ?m = "AList.update (key d) ((case map_of m (key d) of None \<Rightarrow> 0 | Some n \<Rightarrow> n) + 1) m"
  have "countOf ?m k = countOf m k + (if key d = k then 1 else 0)"
    by (simp add: countOf_def update_conv')
  then show ?case using Cons.IH [of ?m] by simp
qed

lemma countByKey_entries:
  "((k, n) \<in> set (countByKey key ds [])) =
     (k \<in> key ` set ds \<and> n = length (filter (\<lambda>d. key d = k) ds))"
proof -
  let ?m = "countByKey key ds []"
  have dis: "distinct (map fst ?m)" by (rule countByKey_distinct) simp
  have keys: "fst ` set ?m = key ` set ds" using countByKey_keys [of key ds "[]"] by simp
  have cnt: "countOf ?m k = length (filter (\<lambda>d. key d = k) ds)"
    using countByKey_count [of key ds "[]" k] by (simp add: countOf_def)
  show ?thesis
  proof
    assume in_m: "(k, n) \<in> set ?m"
    then have "map_of ?m k = Some n" using dis by simp
    then have "countOf ?m k = n" by (simp add: countOf_def)
    moreover have "k \<in> fst ` set ?m" using in_m by force
    ultimately show "k \<in> key ` set ds \<and> n = length (filter (\<lambda>d. key d = k) ds)"
      using keys cnt by simp
  next
    assume r: "k \<in> key ` set ds \<and> n = length (filter (\<lambda>d. key d = k) ds)"
    then have "k \<in> fst ` set ?m" using keys by simp
    then obtain v where v: "(k, v) \<in> set ?m" by force
    then have "map_of ?m k = Some v" using dis by simp
    then have "countOf ?m k = v" by (simp add: countOf_def)
    then have "v = n" using cnt r by simp
    then show "(k, n) \<in> set ?m" using v by simp
  qed
qed

lemma ball_countByKey:
  "(\<forall>(k, n)\<in>set (countByKey key ds []). P k n) =
     (\<forall>d\<in>set ds. P (key d) (length (filter (\<lambda>d'. key d' = key d) ds)))"
proof
  assume l: "\<forall>(k, n)\<in>set (countByKey key ds []). P k n"
  show "\<forall>d\<in>set ds. P (key d) (length (filter (\<lambda>d'. key d' = key d) ds))"
  proof
    fix d assume "d \<in> set ds"
    then have "(key d, length (filter (\<lambda>d'. key d' = key d) ds)) \<in> set (countByKey key ds [])"
      by (simp add: countByKey_entries)
    then show "P (key d) (length (filter (\<lambda>d'. key d' = key d) ds))"
      using l by blast
  qed
next
  assume r: "\<forall>d\<in>set ds. P (key d) (length (filter (\<lambda>d'. key d' = key d) ds))"
  show "\<forall>(k, n)\<in>set (countByKey key ds []). P k n"
  proof (intro ballI, clarify)
    fix k n assume "(k, n) \<in> set (countByKey key ds [])"
    then have "k \<in> key ` set ds" and n: "n = length (filter (\<lambda>d. key d = k) ds)"
      by (simp_all add: countByKey_entries)
    then obtain d where "d \<in> set ds" "k = key d" by blast
    then show "P k n" using r n by blast
  qed
qed

lemma checkDailyLimits_iff:
  "checkDailyLimits c m =
     (\<forall>(k, n)\<in>set m. int (getAppointmentsOnDay c k + n) \<le> maxDailyAppointments c)"
  by (induction m) (auto simp: Let_def not_less split: if_splits)

lemma checkWeeklyLimits_iff:
  "checkWeeklyLimits c m =
     (\<forall>(k, n)\<in>set m. int (getAppointmentsInWeek c k + n) \<le> maxWeeklyAppointments c)"
  by (induction m) (auto simp: Let_def not_less split: if_splits)

lemma getStartOfDay_idem: "getStartOfDay (getStartOfDay t) = getStartOfDay t"
  by (simp add: getStartOfDay_eq Day_of_midnight)

lemma getStartOfWeek_idem: "getStartOfWeek (getStartOfWeek t) = getStartOfWeek t"
proof -
  let ?r = "getStartOfWeek t"
  have "WeekDay ?r = 1" using getStartOfWeek_monday [of t] by blast
  then have "(WeekDay ?r + 6) mod 7 = 0" by simp
  then have "getStartOfWeek ?r = Day ?r * msPerDay"
    by (simp add: getStartOfWeek_eq [of ?r])
  also have "\<dots> = ?r"
    by (simp add: getStartOfWeek_eq [of t] Day_of_midnight)
  finally show ?thesis .
qed

lemma getAppointmentsOnDay_startOfDay:
  "getAppointmentsOnDay c (getStartOfDay t) = getAppointmentsOnDay c t"
  by (simp add: getAppointmentsOnDay_def getStartOfDay_idem)

lemma getAppointmentsInWeek_startOfWeek:
  "getAppointmentsInWeek c (getStartOfWeek t) = getAppointmentsInWeek c t"
  by (simp add: getAppointmentsInWeek_def getStartOfWeek_idem)

lemma canAccommodate_iff:
  "canAccommodateAppointments c ds =
     ((\<forall>d\<in>set ds. int (getAppointmentsOnDay c d + proposedOnDay ds d)
                       \<le> maxDailyAppointments c) \<and>
      (\<forall>d\<in>set ds. int (getAppointmentsInWeek c d + proposedInWeek ds d)
                       \<le> maxWeeklyAppointments c))"
proof -
  have day: "checkDailyLimits c (countByKey getStartOfDay ds []) =
      (\<forall>d\<in>set ds. int (getAppointmentsOnDay c d + proposedOnDay ds d)
                       \<le> maxDailyAppointments c)"
    unfolding checkDailyLimits_iff ball_countByKey
    by (simp add: proposedOnDay_def getAppointmentsOnDay_startOfDay)
  have week: "checkWeeklyLimits c (countByKey getStartOfWeek ds []) =
      (\<forall>d\<in>set ds. int (getAppointmentsInWeek c d + proposedInWeek ds d)
                       \<le> maxWeeklyAppointments c)"
    unfolding checkWeeklyLimits_iff ball_countByKey
    by (simp add: proposedInWeek_def getAppointmentsInWeek_startOfWeek)
  show ?thesis
    unfolding canAccommodateAppointments_def Let_def day week by simp
qed

lemma getAppointmentsOnDay_consuming:
  "getAppointmentsOnDay c t =
     length (filter (\<lambda>x. getStartOfDay t \<le> x \<and> x < getStartOfDay t + 86400000)
       (consumingTimes (appointments c)))"
proof -
  have "length (filter (\<lambda>x. getStartOfDay t \<le> x \<and> x < getStartOfDay t + 86400000)
       (consumingTimes (appointments c))) =
     length (filter ((\<lambda>x. getStartOfDay t \<le> x \<and> x < getStartOfDay t + 86400000) \<circ> scheduledFor)
       (filter (\<lambda>apt. status apt \<in> set COUNTABLE_STATUSES) (appointments c)))"
    by (simp add: consumingTimes_def filter_map)
  also have "\<dots> = getAppointmentsOnDay c t"
    by (simp add: getAppointmentsOnDay_def Let_def conj_commute conj_left_commute cong: conj_cong)
  finally show ?thesis by simp
qed

lemma getAppointmentsInWeek_consuming:
  "getAppointmentsInWeek c t =
     length (filter (\<lambda>x. getStartOfWeek t \<le> x \<and> x < getStartOfWeek t + 604800000)
       (consumingTimes (appointments c)))"
proof -
  have "length (filter (\<lambda>x. getStartOfWeek t \<le> x \<and> x < getStartOfWeek t + 604800000)
       (consumingTimes (appointments c))) =
     length (filter ((\<lambda>x. getStartOfWeek t \<le> x \<and> x < getStartOfWeek t + 604800000) \<circ> scheduledFor)
       (filter (\<lambda>apt. status apt \<in> set COUNTABLE_STATUSES) (appointments c)))"
    by (simp add: consumingTimes_def filter_map)
  also have "\<dots> = getAppointmentsInWeek c t"
    by (simp add: getAppointmentsInWeek_def Let_def conj_commute conj_left_commute cong: conj_cong)
  finally show ?thesis by simp
qed

lemma canAccommodate_cong:
  assumes "maxDailyAppointments c' = maxDailyAppointments c"
    and "maxWeeklyAppointments c' = maxWeeklyAppointments c"
    and "consumingTimes (appointments c') = consumingTimes (appointments c)"
  shows "canAccommodateAppointments c' ds = canAccommodateAppointments c ds"
  by (simp add: canAccommodate_iff getAppointmentsOnDay_consuming
      getAppointmentsInWeek_consuming assms)

lemma countable_iff_not_exempt:
  "(s \<in> set COUNTABLE_STATUSES) = (\<not> exemptStatus s)"
  by (cases s) (simp_all add: COUNTABLE_STATUSES_def exemptStatus_def)

lemma countable_iff_consuming:
  "(s \<in> set COUNTABLE_STATUSES) = consumingStatus s"
  by (cases s) (simp_all add: COUNTABLE_STATUSES_def consumingStatus_def)

lemma consumingTimes_not_exempt:
  "consumingTimes apps = map scheduledFor (filter (\<lambda>a. \<not> exemptStatus (status a)) apps)"
  by (simp add: consumingTimes_def countable_iff_not_exempt)

lemma consumingTimes_permuted:
  "list_all2 statusPermuted apps apps' \<Longrightarrow> consumingTimes apps' = consumingTimes apps"
proof (induction rule: list_all2_induct)
  case Nil
  then show ?case by simp
next
  case (Cons a apps a' apps')
  have "scheduledFor a' = scheduledFor a"
  proof (cases "a' = a")
    case True
    then show ?thesis by simp
  next
    case False
    then have "a' = a\<lparr>status := status a'\<rparr>"
      using Cons.hyps(1) by (simp add: statusPermuted_def)
    then have "scheduledFor a' = scheduledFor (a\<lparr>status := status a'\<rparr>)"
      by (rule arg_cong)
    then show ?thesis by simp
  qed
  moreover have "consumingStatus (status a') = consumingStatus (status a)"
  proof (cases "a' = a")
    case True
    then show ?thesis by simp
  next
    case False
    then show ?thesis using Cons.hyps(1) by (simp add: statusPermuted_def)
  qed
  ultimately show ?case
    using Cons.IH by (simp add: consumingTimes_def countable_iff_consuming)
qed

text \<open>
  Claim C3. Replacing the appointments of a clinician by a list with the same
  appointments of status other than \<open>CANCELLED\<close>, \<open>NO_SHOW\<close>, \<open>RE_SCHEDULED\<close>
  (appointments of these three statuses added, removed or changed at will) does not
  change the result of \<open>canAccommodateAppointments\<close>; neither does changing the
  status of appointments among \<open>UPCOMING\<close>, \<open>OCCURRED\<close>, \<open>LATE_CANCELLATION\<close>.
\<close>

theorem status_partition:
  "(filter (\<lambda>a. \<not> exemptStatus (status a)) apps'
      = filter (\<lambda>a. \<not> exemptStatus (status a)) (appointments c)
    \<longrightarrow> canAccommodateAppointments (c\<lparr>appointments := apps'\<rparr>) dates
          = canAccommodateAppointments c dates) \<and>
   (list_all2 statusPermuted (appointments c) apps''
    \<longrightarrow> canAccommodateAppointments (c\<lparr>appointments := apps''\<rparr>) dates
          = canAccommodateAppointments c dates)"
proof (intro conjI impI)
  assume "filter (\<lambda>a. \<not> exemptStatus (status a)) apps'
      = filter (\<lambda>a. \<not> exemptStatus (status a)) (appointments c)"
  then have "consumingTimes (appointments (c\<lparr>appointments := apps'\<rparr>))
      = consumingTimes (appointments c)"
    by (simp add: consumingTimes_not_exempt)
  then show "canAccommodateAppointments (c\<lparr>appointments := apps'\<rparr>) dates
      = canAccommodateAppointments c dates"
    by (intro canAccommodate_cong) simp_all
next
  assume "list_all2 statusPermuted (appointments c) apps''"
  then have "consumingTimes (appointments (c\<lparr>appointments := apps''\<rparr>))
      = consumingTimes (appointments c)"
    by (simp add: consumingTimes_permuted)
  then show "canAccommodateAppointments (c\<lparr>appointments := apps''\<rparr>) dates
      = canAccommodateAppointments c dates"
    by (intro canAccommodate_cong) simp_all
qed

lemma status_partition_values:
  "filter (\<lambda>a. \<not> exemptStatus (status a))
     (mkAppointment ''apt-0'' 1724065200000 CANCELLED # appointments fourBooked
        @ [mkAppointment ''apt-6'' 1724090400000 NO_SHOW,
           mkAppointment ''apt-7'' 1724094000000 RE_SCHEDULED])
     = filter (\<lambda>a. \<not> exemptStatus (status a)) (appointments fourBooked) \<and>
   list_all2 statusPermuted (appointments fourBooked)
     [mkAppointment ''apt-1'' 1724058000000 LATE_CANCELLATION,
      mkAppointment ''apt-2'' 1724061600000 UPCOMING,
      mkAppointment ''apt-3'' 1724076000000 OCCURRED,
      mkAppointment ''apt-4'' 1724083200000 UPCOMING] \<and>
   canAccommodateAppointments fourBooked [1724068800000]"
  by code_simp

theorem status_partition_witness:
  "filter (\<lambda>a. \<not> exemptStatus (status a))
     (mkAppointment ''apt-0'' 1724065200000 CANCELLED # appointments fourBooked
        @ [mkAppointment ''apt-6'' 1724090400000 NO_SHOW,
           mkAppointment ''apt-7'' 1724094000000 RE_SCHEDULED])
     = filter (\<lambda>a. \<not> exemptStatus (status a)) (appointments fourBooked) \<and>
   canAccommodateAppointments (fourBooked\<lparr>appointments :=
       mkAppointment ''apt-0'' 1724065200000 CANCELLED # appointments fourBooked
        @ [mkAppointment ''apt-6'' 1724090400000 NO_SHOW,
           mkAppointment ''apt-7'' 1724094000000 RE_SCHEDULED]\<rparr>) [1724068800000] \<and>
   list_all2 statusPermuted (appointments fourBooked)
     [mkAppointment ''apt-1'' 1724058000000 LATE_CANCELLATION,
      mkAppointment ''apt-2'' 1724061600000 UPCOMING,
      mkAppointment ''apt-3'' 1724076000000 OCCURRED,
      mkAppointment ''apt-4'' 1724083200000 UPCOMING] \<and>
   canAccommodateAppointments (fourBooked\<lparr>appointments :=
     [mkAppointment ''apt-1'' 1724058000000 LATE_CANCELLATION,
      mkAppointment ''apt-2'' 1724061600000 UPCOMING,
      mkAppointment ''apt-3'' 1724076000000 OCCURRED,
      mkAppointment ''apt-4'' 1724083200000 UPCOMING]\<rparr>) [1724068800000]"
  using status_partition [of
      "mkAppointment ''apt-0'' 1724065200000 CANCELLED # appointments fourBooked
        @ [mkAppointment ''apt-6'' 1724090400000 NO_SHOW,
           mkAppointment ''apt-7'' 1724094000000 RE_SCHEDULED]"
      fourBooked "[1724068800000]"
      "[mkAppointment ''apt-1'' 1724058000000 LATE_CANCELLATION,
      mkAppointment ''apt-2'' 1724061600000 UPCOMING,
      mkAppointment ''apt-3'' 1724076000000 OCCURRED,
      mkAppointment ''apt-4'' 1724083200000 UPCOMING]"]
    status_partition_values
  by simp

subsection \<open>The pair search\<close>

lemma groupByDay_Cons: "groupByDay (slot # rest) m = groupByDay rest (groupStep slot m)"
  by (simp add: groupStep_def Let_def)

lemma groupStep_map_of:
  "map_of (groupStep slot m) = (map_of m)(getStartOfDay slot \<mapsto> slotsOf m (getStartOfDay slot) @ [slot])"
  by (auto simp: groupStep_def Let_def update_conv' slotsOf_def fun_eq_iff)

lemma groupStep_keys:
  "fst ` set (groupStep slot m) = insert (getStartOfDay slot) (fst ` set m)"
  by (auto simp: groupStep_def Let_def dom_update)

lemma groupStep_distinct:
  "distinct (map fst m) \<Longrightarrow> distinct (map fst (groupStep slot m))"
  by (simp add: groupStep_def Let_def distinct_update)

lemma groupStep_slotsOf:
  "slotsOf (groupStep slot m) k =
     slotsOf m k @ (if getStartOfDay slot = k then [slot] else [])"
  by (simp add: slotsOf_def groupStep_map_of)

lemma groupByDay_slotsOf:
  "slotsOf (groupByDay xs m) k = slotsOf m k @ filter (\<lambda>s. getStartOfDay s = k) xs"
proof (induction xs arbitrary: m)
  case Nil
  then show ?case by simp
next
  case (Cons x xs)
  show ?case
    unfolding groupByDay_Cons Cons.IH groupStep_slotsOf by simp
qed

lemma groupByDay_keys:
  "fst ` set (groupByDay xs m) = fst ` set m \<union> getStartOfDay ` set xs"
proof (induction xs arbitrary: m)
  case Nil
  then show ?case by simp
next
  case (Cons x xs)
  show ?case
    unfolding groupByDay_Cons Cons.IH groupStep_keys by auto
qed

lemma groupByDay_distinct:
  "distinct (map fst m) \<Longrightarrow> distinct (map fst (groupByDay xs m))"
proof (induction xs arbitrary: m)
  case Nil
  then show ?case by simp
next
  case (Cons x xs)
  show ?case
    unfolding groupByDay_Cons by (rule Cons.IH) (rule groupStep_distinct [OF Cons.prems])
qed

lemma groupByDay_entries:
  "((k, ys) \<in> set (groupByDay xs [])) =
     (k \<in> getStartOfDay ` set xs \<and> ys = filter (\<lambda>s. getStartOfDay s = k) xs)"
proof -
  let ?m = "groupByDay xs []"
  have dis: "distinct (map fst ?m)" by (rule groupByDay_distinct) simp
  have keys: "fst ` set ?m = getStartOfDay ` set xs"
    using groupByDay_keys [of xs "[]"] by simp
  have so: "slotsOf ?m k = filter (\<lambda>s. getStartOfDay s = k) xs"
    using groupByDay_slotsOf [of xs "[]" k] by (simp add: slotsOf_def)
  show ?thesis
  proof
    assume in_m: "(k, ys) \<in> set ?m"
    then have "map_of ?m k = Some ys" using dis by simp
    then have "slotsOf ?m k = ys" by (simp add: slotsOf_def)
    moreover have "k \<in> fst ` set ?m" using in_m by force
    ultimately show "k \<in> getStartOfDay ` set xs \<and> ys = filter (\<lambda>s. getStartOfDay s = k) xs"
      using keys so by simp
  next
    assume r: "k \<in> getStartOfDay ` set xs \<and> ys = filter (\<lambda>s. getStartOfDay s = k) xs"
    then have "k \<in> fst ` set ?m" using keys by simp
    then obtain v where v: "(k, v) \<in> set ?m" by force
    then have "map_of ?m k = Some v" using dis by simp
    then have "slotsOf ?m k = v" by (simp add: slotsOf_def)
    then have "v = ys" using so r by simp
    then show "(k, ys) \<in> set ?m" using v by simp
  qed
qed

lemma eligibleDaysOf_eq:
  "eligibleDaysOf c m =
     map (\<lambda>(k, xs). \<lparr>dayKey = k, dayTime = k, slots = xs\<rparr>)
       (filter (\<lambda>(k, xs). eligibleDay c k) m)"
  by (induction m) (auto simp: Let_def eligibleDay_def)

lemma dayTime_eligibleDaysOf:
  "map dayTime (eligibleDaysOf c m) = map fst (filter (\<lambda>(k, xs). eligibleDay c k) m)"
  by (simp add: eligibleDaysOf_eq case_prod_unfold comp_def)

lemma distinct_eligibleDaysOf:
  "distinct (map fst m) \<Longrightarrow> distinct (map dayTime (eligibleDaysOf c m))"
  unfolding dayTime_eligibleDaysOf by (rule distinct_map_filter)

lemma in_eligibleDaysOf:
  "(d \<in> set (eligibleDaysOf c m)) =
     ((dayTime d, slots d) \<in> set m \<and> dayKey d = dayTime d \<and> eligibleDay c (dayTime d))"
  by (cases d) (auto simp: eligibleDaysOf_eq)

lemma in_pairSlots:
  "(p \<in> set (pairSlots c xs ys)) =
     (session1 p \<in> set xs \<and> session2 p \<in> set ys \<and>
      canAccommodateAppointments c [session1 p, session2 p])"
  by (cases p) (auto simp: pairSlots_def)

lemma in_pairWithLaterDays:
  "sorted (map dayTime rest) \<Longrightarrow>
   (p \<in> set (pairWithLaterDays c day1 rest)) =
     (\<exists>day2\<in>set rest. dayTime day2 - dayTime day1 \<le> sevenDaysMs \<and>
        p \<in> set (pairSlots c (slots day1) (slots day2)))"
proof (induction rest)
  case Nil
  then show ?case by simp
next
  case (Cons day2 rest)
  have srt: "sorted (map dayTime rest)" and le: "\<forall>d\<in>set rest. dayTime day2 \<le> dayTime d"
    using Cons.prems by simp_all
  show ?case
  proof (cases "dayTime day2 - dayTime day1 > sevenDaysMs")
    case True
    then have "\<forall>d\<in>set (day2 # rest). \<not> dayTime d - dayTime day1 \<le> sevenDaysMs"
      using le by fastforce
    then show ?thesis using True by (simp add: Let_def)
  next
    case False
    then show ?thesis using Cons.IH [OF srt] by (auto simp: Let_def)
  qed
qed

lemma in_pairAllDays:
  "sorted (map dayTime days) \<Longrightarrow> distinct (map dayTime days) \<Longrightarrow>
   (p \<in> set (pairAllDays c days)) =
     (\<exists>day1\<in>set days. \<exists>day2\<in>set days.
        dayTime day1 < dayTime day2 \<and> dayTime day2 - dayTime day1 \<le> sevenDaysMs \<and>
        p \<in> set (pairSlots c (slots day1) (slots day2)))"
proof (induction days)
  case Nil
  then show ?case by simp
next
  case (Cons d rest)
  have srt: "sorted (map dayTime rest)" and dis: "distinct (map dayTime rest)"
    using Cons.prems by simp_all
  have lt: "\<forall>x\<in>set rest. dayTime d < dayTime x"
  proof
    fix x assume x: "x \<in> set rest"
    then have "dayTime d \<le> dayTime x" using Cons.prems(1) by simp
    moreover have "dayTime d \<noteq> dayTime x" using Cons.prems(2) x by auto
    ultimately show "dayTime d < dayTime x" by simp
  qed
  let ?Q = "\<lambda>day1 day2. dayTime day1 < dayTime day2 \<and> dayTime day2 - dayTime day1 \<le> sevenDaysMs \<and>
        p \<in> set (pairSlots c (slots day1) (slots day2))"
  have first: "(p \<in> set (pairWithLaterDays c d rest)) = (\<exists>day2\<in>set rest. ?Q d day2)"
    using in_pairWithLaterDays [OF srt, of p c d] lt by auto
  have later: "(p \<in> set (pairAllDays c rest)) = (\<exists>day1\<in>set rest. \<exists>day2\<in>set rest. ?Q day1 day2)"
    using Cons.IH [OF srt dis] .
  have nod: "\<not> ?Q day1 d" if "day1 \<in> set (d # rest)" for day1
    using that lt by auto
  have "(\<exists>day1\<in>set (d # rest). \<exists>day2\<in>set (d # rest). ?Q day1 day2) =
      ((\<exists>day2\<in>set rest. ?Q d day2) \<or> (\<exists>day1\<in>set rest. \<exists>day2\<in>set rest. ?Q day1 day2))"
    using nod by auto
  then show ?case using first later by simp
qed

lemma eligibleDay_startOfDay: "eligibleDay c (getStartOfDay t) = eligibleDay c t"
  by (simp add: eligibleDay_def getAppointmentsOnDay_startOfDay)

lemma getStartOfDay_mono: "a \<le> b \<Longrightarrow> getStartOfDay a \<le> getStartOfDay b"
  by (simp add: getStartOfDay_eq Day_def msPerDay_def zdiv_mono1)

lemma getStartOfDay_less: "getStartOfDay a < getStartOfDay b \<Longrightarrow> a < b"
  using getStartOfDay_mono [of b a] by linarith

lemma accommodated_pair_eligible:
  assumes "canAccommodateAppointments c [a, b]" and "getStartOfDay a \<noteq> getStartOfDay b"
  shows "eligibleDay c a \<and> eligibleDay c b"
proof -
  have "proposedOnDay [a, b] a = 1" "proposedOnDay [a, b] b = 1"
    using assms(2) by (simp_all add: proposedOnDay_def)
  then show ?thesis
    using assms(1) by (simp add: canAccommodate_iff eligibleDay_def)
qed

lemma in_sorted_eligibleDays:
  "(d \<in> set (sort_key dayTime (eligibleDaysOf c (groupByDay xs [])))) =
     (dayTime d \<in> getStartOfDay ` set xs \<and>
      slots d = filter (\<lambda>s. getStartOfDay s = dayTime d) xs \<and>
      dayKey d = dayTime d \<and> eligibleDay c (dayTime d))"
  by (simp add: in_eligibleDaysOf groupByDay_entries conj_commute conj_left_commute)

lemma in_pairAllDays_grouped:
  "(p \<in> set (pairAllDays c (sort_key dayTime (eligibleDaysOf c (groupByDay xs []))))) =
     (session1 p \<in> set xs \<and> session2 p \<in> set xs \<and>
      getStartOfDay (session1 p) < getStartOfDay (session2 p) \<and>
      getStartOfDay (session2 p) - getStartOfDay (session1 p) \<le> sevenDaysMs \<and>
      canAccommodateAppointments c [session1 p, session2 p])"
  (is "(p \<in> set (pairAllDays c ?days)) = ?R")
proof -
  let ?a = "session1 p" and ?b = "session2 p"
  have srt: "sorted (map dayTime ?days)" by simp
  have "distinct (map dayTime (eligibleDaysOf c (groupByDay xs [])))"
    by (rule distinct_eligibleDaysOf) (rule groupByDay_distinct, simp)
  then have dis: "distinct (map dayTime ?days)"
    by (simp add: distinct_map)
  note chr = in_pairAllDays [OF srt dis, of p c]
  show ?thesis
  proof
    assume "p \<in> set (pairAllDays c ?days)"
    then obtain day1 day2 where d1: "day1 \<in> set ?days" and d2: "day2 \<in> set ?days"
      and lt: "dayTime day1 < dayTime day2"
      and le: "dayTime day2 - dayTime day1 \<le> sevenDaysMs"
      and ps: "p \<in> set (pairSlots c (slots day1) (slots day2))"
      using chr by blast
    have s1: "slots day1 = filter (\<lambda>s. getStartOfDay s = dayTime day1) xs"
      using d1 unfolding in_sorted_eligibleDays by blast
    have s2: "slots day2 = filter (\<lambda>s. getStartOfDay s = dayTime day2) xs"
      using d2 unfolding in_sorted_eligibleDays by blast
    have a: "?a \<in> set xs" "getStartOfDay ?a = dayTime day1"
      using ps unfolding in_pairSlots s1 by simp_all
    have b: "?b \<in> set xs" "getStartOfDay ?b = dayTime day2"
      using ps unfolding in_pairSlots s2 by simp_all
    have "canAccommodateAppointments c [?a, ?b]"
      using ps unfolding in_pairSlots by blast
    then show ?R using a b lt le by simp
  next
    assume r: ?R
    then have ne: "getStartOfDay ?a \<noteq> getStartOfDay ?b" by simp
    have el: "eligibleDay c ?a" "eligibleDay c ?b"
      using accommodated_pair_eligible [OF _ ne] r by blast+
    define day1 where "day1 = \<lparr>dayKey = getStartOfDay ?a, dayTime = getStartOfDay ?a,
        slots = filter (\<lambda>s. getStartOfDay s = getStartOfDay ?a) xs\<rparr>"
    define day2 where "day2 = \<lparr>dayKey = getStartOfDay ?b, dayTime = getStartOfDay ?b,
        slots = filter (\<lambda>s. getStartOfDay s = getStartOfDay ?b) xs\<rparr>"
    have d1: "day1 \<in> set ?days"
      unfolding in_sorted_eligibleDays using r el(1)
      by (simp add: day1_def eligibleDay_startOfDay)
    have d2: "day2 \<in> set ?days"
      unfolding in_sorted_eligibleDays using r el(2)
      by (simp add: day2_def eligibleDay_startOfDay)
    have ps: "p \<in> set (pairSlots c (slots day1) (slots day2))"
      unfolding in_pairSlots using r by (simp add: day1_def day2_def)
    have "dayTime day1 < dayTime day2" "dayTime day2 - dayTime day1 \<le> sevenDaysMs"
      using r by (simp_all add: day1_def day2_def)
    then show "p \<in> set (pairAllDays c ?days)"
      unfolding chr using d1 d2 ps by blast
  qed
qed

lemma in_validPairsOf:
  "(p \<in> set (validPairsOf c)) =
     (session1 p \<in> set (assessmentSlotsOf c) \<and> session2 p \<in> set (assessmentSlotsOf c) \<and>
      getStartOfDay (session1 p) < getStartOfDay (session2 p) \<and>
      getStartOfDay (session2 p) - getStartOfDay (session1 p) \<le> sevenDaysMs \<and>
      canAccommodateAppointments c [session1 p, session2 p])"
  unfolding validPairsOf_def by (rule in_pairAllDays_grouped)

lemma short_list_one_element:
  "length xs < 2 \<Longrightarrow> a \<in> set xs \<Longrightarrow> b \<in> set xs \<Longrightarrow> a = b"
  by (cases xs; cases "tl xs") auto

lemma pairAllDays_short: "length days < 2 \<Longrightarrow> pairAllDays c days = []"
  by (cases days; cases "tl days") auto

lemma validPairsOf_few_slots:
  assumes "length (assessmentSlotsOf c) < 2"
  shows "validPairsOf c = []"
proof -
  have "p \<notin> set (validPairsOf c)" for p
  proof
    assume "p \<in> set (validPairsOf c)"
    then have "session1 p \<in> set (assessmentSlotsOf c)" "session2 p \<in> set (assessmentSlotsOf c)"
      "getStartOfDay (session1 p) < getStartOfDay (session2 p)"
      unfolding in_validPairsOf by blast+
    then show False using short_list_one_element [OF assms] by fastforce
  qed
  then show ?thesis by (cases "validPairsOf c") auto
qed

lemma validPairsOf_few_days:
  assumes "length (eligibleDaysOf c (groupByDay (assessmentSlotsOf c) [])) < 2"
  shows "validPairsOf c = []"
  unfolding validPairsOf_def using assms by (intro pairAllDays_short) simp

lemma assessmentFor_eq:
  "assessmentFor patient c =
     (if clinicianType c = PSYCHOLOGIST \<and> isClinicianEligible c patient \<and> validPairsOf c \<noteq> []
      then Some \<lparr>clinician = c, availableSlotPairs = validPairsOf c\<rparr> else None)"
proof (cases "length (assessmentSlotsOf c) < 2")
  case True
  then show ?thesis
    by (simp add: assessmentFor_def Let_def validPairsOf_few_slots)
next
  case False
  note slots = this
  show ?thesis
  proof (cases "length (eligibleDaysOf c (groupByDay (assessmentSlotsOf c) [])) < 2")
    case True
    then show ?thesis
      using slots by (simp add: assessmentFor_def Let_def validPairsOf_few_days)
  next
    case False
    then show ?thesis
      using slots by (simp add: assessmentFor_def Let_def validPairsOf_def)
  qed
qed

lemma findAssessmentSlots_eq:
  "findAssessmentSlots patient clinicians =
     map (\<lambda>c. \<lparr>clinician = c, availableSlotPairs = validPairsOf c\<rparr>)
       (filter (\<lambda>c. clinicianType c = PSYCHOLOGIST \<and> isClinicianEligible c patient \<and>
                     validPairsOf c \<noteq> []) clinicians)"
  by (induction clinicians) (simp_all add: assessmentFor_eq)

lemma in_naivePairs:
  "(p \<in> set (naivePairs c)) =
     (session1 p \<in> set (assessmentSlotsOf c) \<and> session2 p \<in> set (assessmentSlotsOf c) \<and>
      session1 p < session2 p \<and>
      getStartOfDay (session1 p) \<noteq> getStartOfDay (session2 p) \<and>
      getStartOfDay (session2 p) - getStartOfDay (session1 p) \<le> sevenDaysMs \<and>
      canAccommodateAppointments c [session1 p, session2 p])"
  by (cases p) (auto simp: naivePairs_def assessmentSlotsOf_def Let_def)

lemma set_naivePairs: "set (naivePairs c) = set (validPairsOf c)"
proof (rule set_eqI)
  fix p :: AssessmentSlotPair
  have "(session1 p < session2 p \<and> getStartOfDay (session1 p) \<noteq> getStartOfDay (session2 p)) =
      (getStartOfDay (session1 p) < getStartOfDay (session2 p))"
    using getStartOfDay_less [of "session1 p" "session2 p"]
      getStartOfDay_mono [of "session1 p" "session2 p"] by force
  then show "(p \<in> set (naivePairs c)) = (p \<in> set (validPairsOf c))"
    unfolding in_naivePairs in_validPairsOf by blast
qed

lemma naivePairs_empty: "(naivePairs c = []) = (validPairsOf c = [])"
  using set_naivePairs [of c] by (metis set_empty)

text \<open>
  Claim C6. The search of the source (grouping by day, dropping the days without room,
  sorting the days, leaving the inner loop at the first day more than seven days later)
  and the scan of all pairs return the same clinicians, in the same order, each with the
  same set of pairs.
\<close>

theorem findAssessmentSlots_refines_naive:
  "map clinician (findAssessmentSlots patient clinicians)
     = map clinician (naiveFindAssessmentSlots patient clinicians) \<and>
   map (\<lambda>r. set (availableSlotPairs r)) (findAssessmentSlots patient clinicians)
     = map (\<lambda>r. set (availableSlotPairs r)) (naiveFindAssessmentSlots patient clinicians)"
  by (simp add: findAssessmentSlots_eq naiveFindAssessmentSlots_def comp_def
      naivePairs_empty set_naivePairs)

lemma therapy_clinician_of:
  "therapyFor patient c = Some r \<Longrightarrow> therapy_clinician r = c"
  by (auto simp: therapyFor_def Let_def split: if_splits)

lemma findTherapySlots_clinicians:
  "map therapy_clinician (findTherapySlots patient clinicians)
     = filter (\<lambda>c. therapyFor patient c \<noteq> None) clinicians"
  by (induction clinicians) (auto simp: therapy_clinician_of split: option.splits)

lemma findAssessmentSlots_clinicians:
  "map clinician (findAssessmentSlots patient clinicians)
     = filter (\<lambda>c. assessmentFor patient c \<noteq> None) clinicians"
  by (induction clinicians) (auto simp: assessmentFor_eq split: option.splits if_splits)

text \<open>
  Claim C10. The clinicians of the results of \<open>findAssessmentSlots\<close> and of
  \<open>findTherapySlots\<close> are the clinicians of the roster that have a result, in the
  order of the roster.
\<close>

theorem results_in_roster_order:
  "map clinician (findAssessmentSlots patient clinicians)
     = filter (\<lambda>c. assessmentFor patient c \<noteq> None) clinicians \<and>
   subseq (map clinician (findAssessmentSlots patient clinicians)) clinicians \<and>
   map therapy_clinician (findTherapySlots patient clinicians)
     = filter (\<lambda>c. therapyFor patient c \<noteq> None) clinicians \<and>
   subseq (map therapy_clinician (findTherapySlots patient clinicians)) clinicians"
  by (simp add: findAssessmentSlots_clinicians findTherapySlots_clinicians)

lemma readme_result:
  "findAssessmentSlots readmePatient [testClinician1]
     = [\<lparr>clinician = testClinician1, availableSlotPairs = readmePairs\<rparr>]"
  by code_simp

text \<open>
  Claim C5. On the reference fixture (six 90-minute slots on 2024-08-19, 08-21, 08-22 and
  08-28; limits 3 a day and 10 a week; no appointments) \<open>findAssessmentSlots\<close>
  returns one entry with exactly 11 pairs. No pair joins the slot of 2024-08-28 with a
  slot before 2024-08-21; the pairs that end on 2024-08-28 start on 08-21 (exactly seven
  days before) and on 08-22.
\<close>

theorem readme_fixture:
  "findAssessmentSlots readmePatient [testClinician1]
     = [\<lparr>clinician = testClinician1, availableSlotPairs = readmePairs\<rparr>] \<and>
   length readmePairs = 11 \<and>
   filter (\<lambda>p. getStartOfDay (session2 p) = 1724803200000 \<and> session1 p < 1724198400000)
     readmePairs = [] \<and>
   filter (\<lambda>p. getStartOfDay (session2 p) = 1724803200000) readmePairs
     = [\<lparr>session1 = 1724241600000, session2 = 1724847300000\<rparr>,
        \<lparr>session1 = 1724252400000, session2 = 1724847300000\<rparr>,
        \<lparr>session1 = 1724338800000, session2 = 1724847300000\<rparr>] \<and>
   getStartOfDay 1724847300000 - getStartOfDay 1724241600000 = sevenDaysMs"
proof -
  have "length readmePairs = 11" by code_simp
  moreover have "filter (\<lambda>p. getStartOfDay (session2 p) = 1724803200000 \<and> session1 p < 1724198400000)
     readmePairs = []" by code_simp
  moreover have "filter (\<lambda>p. getStartOfDay (session2 p) = 1724803200000) readmePairs
     = [\<lparr>session1 = 1724241600000, session2 = 1724847300000\<rparr>,
        \<lparr>session1 = 1724252400000, session2 = 1724847300000\<rparr>,
        \<lparr>session1 = 1724338800000, session2 = 1724847300000\<rparr>]" by code_simp
  moreover have "getStartOfDay 1724847300000 - getStartOfDay 1724241600000 = sevenDaysMs"
    by code_simp
  ultimately show ?thesis using readme_result by simp
qed

text \<open>
  Claim C4. Every pair of every entry of the result of \<open>findAssessmentSlots\<close> has its
  sessions on different days, the starts of the two days at most seven days apart, the
  entry's clinician able to accommodate both sessions together (so each of the two days
  has room for one more appointment, and the week of each session has room for the
  sessions of the pair that fall in it), and the first session before the second.
\<close>

theorem pair_validity:
  assumes "r \<in> set (findAssessmentSlots patient clinicians)"
    and "p \<in> set (availableSlotPairs r)"
  shows "getStartOfDay (session1 p) \<noteq> getStartOfDay (session2 p) \<and>
         \<bar>getStartOfDay (session2 p) - getStartOfDay (session1 p)\<bar> \<le> 7 * msPerDay \<and>
         canAccommodateAppointments (clinician r) [session1 p, session2 p] \<and>
         int (getAppointmentsOnDay (clinician r) (session1 p) + 1)
           \<le> maxDailyAppointments (clinician r) \<and>
         int (getAppointmentsOnDay (clinician r) (session2 p) + 1)
           \<le> maxDailyAppointments (clinician r) \<and>
         int (getAppointmentsInWeek (clinician r) (session1 p)
               + proposedInWeek [session1 p, session2 p] (session1 p))
           \<le> maxWeeklyAppointments (clinician r) \<and>
         int (getAppointmentsInWeek (clinician r) (session2 p)
               + proposedInWeek [session1 p, session2 p] (session2 p))
           \<le> maxWeeklyAppointments (clinician r) \<and>
         session1 p < session2 p"
proof -
  obtain c where r: "r = \<lparr>clinician = c, availableSlotPairs = validPairsOf c\<rparr>"
    using assms(1) unfolding findAssessmentSlots_eq by auto
  then have "p \<in> set (validPairsOf c)" using assms(2) by simp
  then have lt: "getStartOfDay (session1 p) < getStartOfDay (session2 p)"
    and le: "getStartOfDay (session2 p) - getStartOfDay (session1 p) \<le> sevenDaysMs"
    and acc: "canAccommodateAppointments c [session1 p, session2 p]"
    unfolding in_validPairsOf by blast+
  have ne: "getStartOfDay (session1 p) \<noteq> getStartOfDay (session2 p)" using lt by simp
  have el: "eligibleDay c (session1 p)" "eligibleDay c (session2 p)"
    using accommodated_pair_eligible [OF acc ne] by blast+
  have wk: "int (getAppointmentsInWeek c (session1 p)
               + proposedInWeek [session1 p, session2 p] (session1 p))
           \<le> maxWeeklyAppointments c"
      "int (getAppointmentsInWeek c (session2 p)
               + proposedInWeek [session1 p, session2 p] (session2 p))
           \<le> maxWeeklyAppointments c"
    using acc unfolding canAccommodate_iff by simp_all
  have "\<bar>getStartOfDay (session2 p) - getStartOfDay (session1 p)\<bar> \<le> 7 * msPerDay"
    using lt le by (simp add: sevenDaysMs_def msPerDay_def)
  moreover have "session1 p < session2 p" using lt by (rule getStartOfDay_less)
  ultimately show ?thesis
    using ne acc el wk unfolding eligibleDay_def r by simp
qed

theorem pair_validity_witness:
  "\<lparr>clinician = testClinician1, availableSlotPairs = readmePairs\<rparr>
     \<in> set (findAssessmentSlots readmePatient [testClinician1]) \<and>
   \<lparr>session1 = 1724241600000, session2 = 1724847300000\<rparr> \<in> set readmePairs \<and>
   getStartOfDay 1724241600000 \<noteq> getStartOfDay 1724847300000 \<and>
   \<bar>getStartOfDay 1724847300000 - getStartOfDay 1724241600000\<bar> \<le> 7 * msPerDay \<and>
   canAccommodateAppointments testClinician1 [1724241600000, 1724847300000] \<and>
   (1724241600000 :: int) < 1724847300000"
proof -
  have r: "\<lparr>clinician = testClinician1, availableSlotPairs = readmePairs\<rparr>
     \<in> set (findAssessmentSlots readmePatient [testClinician1])"
    unfolding readme_result by simp
  have p: "\<lparr>session1 = 1724241600000, session2 = 1724847300000\<rparr>
     \<in> set (availableSlotPairs \<lparr>clinician = testClinician1, availableSlotPairs = readmePairs\<rparr>)"
    by (simp add: readmePairs_def)
  show ?thesis
    using pair_validity [OF r p] r p by simp
qed

subsection \<open>What the scheduler leaves unchanged\<close>

lemma frames_return: "Q v \<Longrightarrow> frames n (State_Monad.return v) Q"
  by (simp add: frames_def)

lemma frames_bind:
  assumes "frames n m Q" and "\<And>v. Q v \<Longrightarrow> frames n (f v) R"
  shows "frames n (m \<bind> f) R"
  unfolding frames_def
proof (intro allI impI)
  fix s :: store assume n: "n \<le> length s"
  obtain v s1 where m: "run_state m s = (v, s1)" by (cases "run_state m s")
  have "case run_state m s of
      (v, s') \<Rightarrow> length s \<le> length s' \<and> take n s' = take n s \<and> Q v"
    using assms(1) [unfolded frames_def, rule_format, OF n] .
  then have 1: "length s \<le> length s1" "take n s1 = take n s" "Q v"
    by (simp_all add: m)
  obtain w s2 where f: "run_state (f v) s1 = (w, s2)" by (cases "run_state (f v) s1")
  have "n \<le> length s1" using n 1(1) by simp
  then have "case run_state (f v) s1 of
      (v, s') \<Rightarrow> length s1 \<le> length s' \<and> take n s' = take n s1 \<and> R v"
    by (rule assms(2) [OF 1(3), unfolded frames_def, rule_format])
  then have 2: "length s1 \<le> length s2" "take n s2 = take n s1" "R w"
    by (simp_all add: f)
  show "case run_state (m \<bind> f) s of
      (v, s') \<Rightarrow> length s \<le> length s' \<and> take n s' = take n s \<and> R v"
    using 1 2 m f by simp
qed

lemma frames_weaken:
  assumes "frames n m Q" and "\<And>v. Q v \<Longrightarrow> R v"
  shows "frames n m R"
  unfolding frames_def
proof (intro allI impI)
  fix s :: store assume n: "n \<le> length s"
  obtain v s1 where m: "run_state m s = (v, s1)" by (cases "run_state m s")
  have "case run_state m s of
      (v, s') \<Rightarrow> length s \<le> length s' \<and> take n s' = take n s \<and> Q v"
    using assms(1) [unfolded frames_def, rule_format, OF n] .
  then show "case run_state m s of
      (v, s') \<Rightarrow> length s \<le> length s' \<and> take n s' = take n s \<and> R v"
    using assms(2) by (simp add: m)
qed

lemma frames_alloc: "frames n (alloc c) (\<lambda>r. n \<le> r)"
  by (simp add: frames_def alloc_def)

lemma frames_write: "n \<le> r \<Longrightarrow> frames n (writeCell r c) (\<lambda>_. True)"
  by (simp add: frames_def writeCell_def)

lemma frames_readCell: "frames n (readCell r) (\<lambda>_. True)"
  by (simp add: frames_def readCell_def)

lemma frames_if:
  "(b \<Longrightarrow> frames n m1 Q) \<Longrightarrow> (\<not> b \<Longrightarrow> frames n m2 Q) \<Longrightarrow> frames n (if b then m1 else m2) Q"
  by simp

lemma frames_bind_if:
  assumes "b \<Longrightarrow> frames n m1 (\<lambda>_. True)" and "\<not> b \<Longrightarrow> frames n m2 (\<lambda>_. True)"
    and "\<And>v. frames n (f v) R"
  shows "frames n ((if b then m1 else m2) \<bind> f) R"
  by (rule frames_bind [where Q = "\<lambda>_. True"]) (simp_all add: assms)

lemma frames_read:
  "frames n (readCell r \<bind> (\<lambda>c. State_Monad.return (g c))) (\<lambda>_. True)"
  by (rule frames_bind [OF frames_readCell]) (rule frames_return, simp)

lemma frames_getTime: "frames n (getTime r) (\<lambda>_. True)"
  unfolding getTime_def by (rule frames_read)

lemma frames_readDates: "frames n (readDates r) (\<lambda>_. True)"
  unfolding readDates_def by (rule frames_read)

lemma frames_readSlots: "frames n (readSlots r) (\<lambda>_. True)"
  unfolding readSlots_def by (rule frames_read)

lemma frames_readAppointments: "frames n (readAppointments r) (\<lambda>_. True)"
  unfolding readAppointments_def by (rule frames_read)

lemma frames_readClinicians: "frames n (readClinicians r) (\<lambda>_. True)"
  unfolding readClinicians_def by (rule frames_read)

lemma frames_readIntervals: "frames n (readIntervals r) (\<lambda>_. True)"
  unfolding readIntervals_def by (rule frames_read)

lemma frames_readDays: "frames n (readDays r) (\<lambda>_. True)"
  unfolding readDays_def by (rule frames_read)

lemma frames_readPairs: "frames n (readPairs r) (\<lambda>_. True)"
  unfolding readPairs_def by (rule frames_read)

lemma frames_readResults: "frames n (readResults r) (\<lambda>_. True)"
  unfolding readResults_def by (rule frames_read)

lemma frames_readTherapies: "frames n (readTherapies r) (\<lambda>_. True)"
  unfolding readTherapies_def by (rule frames_read)

lemmas frames_reads =
  frames_getTime frames_readDates frames_readSlots frames_readAppointments
  frames_readClinicians frames_readIntervals frames_readDays frames_readPairs
  frames_readResults frames_readTherapies

lemmas frames_then_reads =
  frames_bind [OF frames_getTime] frames_bind [OF frames_readDates]
  frames_bind [OF frames_readSlots] frames_bind [OF frames_readAppointments]
  frames_bind [OF frames_readClinicians] frames_bind [OF frames_readIntervals]
  frames_bind [OF frames_readDays] frames_bind [OF frames_readPairs]
  frames_bind [OF frames_readResults] frames_bind [OF frames_readTherapies]
  frames_bind [OF frames_alloc] frames_bind [OF frames_write]

lemma frames_pushDate: "n \<le> r \<Longrightarrow> frames n (pushDate r x) (\<lambda>_. True)"
  unfolding pushDate_def by (intro frames_then_reads frames_write)

lemma frames_pushDay: "n \<le> r \<Longrightarrow> frames n (pushDay r x) (\<lambda>_. True)"
  unfolding pushDay_def by (intro frames_then_reads frames_write)

lemma frames_pushPair: "n \<le> r \<Longrightarrow> frames n (pushPair r x) (\<lambda>_. True)"
  unfolding pushPair_def by (intro frames_then_reads frames_write)

lemma frames_pushResult: "n \<le> r \<Longrightarrow> frames n (pushResult r x) (\<lambda>_. True)"
  unfolding pushResult_def by (intro frames_then_reads frames_write)

lemma frames_pushTherapy: "n \<le> r \<Longrightarrow> frames n (pushTherapy r x) (\<lambda>_. True)"
  unfolding pushTherapy_def by (intro frames_then_reads frames_write)

lemmas frames_pushes =
  frames_pushDate frames_pushDay frames_pushPair frames_pushResult frames_pushTherapy

lemmas frames_then_pushes =
  frames_bind [OF frames_pushDate] frames_bind [OF frames_pushDay]
  frames_bind [OF frames_pushPair] frames_bind [OF frames_pushResult]
  frames_bind [OF frames_pushTherapy]

lemma frames_timesOf: "frames n (timesOf ds) (\<lambda>_. True)"
proof (induction ds)
  case Nil
  then show ?case by (simp add: frames_return)
next
  case (Cons d ds)
  show ?case
    unfolding timesOf.simps
    by (intro frames_then_reads frames_bind [OF Cons.IH] frames_return TrueI)
qed

lemma frames_endTimesOf: "frames n (endTimesOf itvs) (\<lambda>_. True)"
proof (induction itvs)
  case Nil
  then show ?case by (simp add: frames_return)
next
  case (Cons itv itvs)
  show ?case
    unfolding endTimesOf.simps
    by (intro frames_then_reads frames_bind [OF Cons.IH] frames_return TrueI)
qed

lemma frames_sortDates: "n \<le> r \<Longrightarrow> frames n (sortDates r) (\<lambda>_. True)"
  unfolding sortDates_def
  by (intro frames_then_reads frames_bind [OF frames_timesOf] frames_write)

lemma frames_sortIntervals: "n \<le> r \<Longrightarrow> frames n (sortIntervals r) (\<lambda>_. True)"
  unfolding sortIntervals_def
  by (intro frames_then_reads frames_bind [OF frames_endTimesOf] frames_write)

lemma frames_sortDays: "n \<le> r \<Longrightarrow> frames n (sortDays r) (\<lambda>_. True)"
  unfolding sortDays_def by (intro frames_then_reads frames_write)

lemma frames_mkIntervals: "frames n (mkIntervals D ds) (\<lambda>_. True)"
proof (induction ds)
  case Nil
  then show ?case by (simp add: frames_return)
next
  case (Cons d ds)
  show ?case
    unfolding mkIntervals.simps
    by (intro frames_then_reads frames_bind [OF Cons.IH] frames_return TrueI)
qed

lemma frames_selectLoop_st:
  "n \<le> selected \<Longrightarrow> frames n (selectLoop_st selected lastEnd itvs) (\<lambda>_. True)"
proof (induction itvs arbitrary: lastEnd)
  case Nil
  then show ?case by (simp add: frames_return)
next
  case (Cons itv itvs)
  show ?case
    unfolding selectLoop_st.simps
    by (intro frames_then_reads frames_then_pushes frames_if Cons.IH Cons.prems)
qed

lemma frames_optimizeSlots_st: "frames n (optimizeSlots_st dates D) (\<lambda>r. n \<le> r)"
  unfolding optimizeSlots_st_def
  by (intro frames_then_reads frames_if frames_alloc frames_bind [OF frames_mkIntervals]
      frames_bind [OF frames_sortIntervals] frames_bind [OF frames_selectLoop_st]
      frames_return; assumption)

lemma frames_getStartOfDay_st: "frames n (getStartOfDay_st date) (\<lambda>d. n \<le> d)"
  unfolding getStartOfDay_st_def
  by (intro frames_then_reads frames_return; assumption)

lemma frames_getStartOfWeek_st: "frames n (getStartOfWeek_st date) (\<lambda>d. n \<le> d)"
  unfolding getStartOfWeek_st_def Let_def
  by (intro frames_then_reads frames_return; assumption)

lemma frames_filterInRange: "frames n (filterInRange lo hi apps) (\<lambda>_. True)"
proof (induction apps)
  case Nil
  then show ?case by (simp add: frames_return)
next
  case (Cons apt apps)
  show ?case
    unfolding filterInRange.simps Let_def
    by (intro frames_then_reads frames_bind [OF Cons.IH] frames_return TrueI)
qed

lemma frames_getAppointmentsOnDay_st: "frames n (getAppointmentsOnDay_st c date) (\<lambda>_. True)"
  unfolding getAppointmentsOnDay_st_def Let_def
  by (intro frames_then_reads frames_bind [OF frames_getStartOfDay_st]
      frames_bind [OF frames_filterInRange] frames_return TrueI)

lemma frames_getAppointmentsInWeek_st: "frames n (getAppointmentsInWeek_st c date) (\<lambda>_. True)"
  unfolding getAppointmentsInWeek_st_def Let_def
  by (intro frames_then_reads frames_bind [OF frames_getStartOfWeek_st]
      frames_bind [OF frames_filterInRange] frames_return TrueI)

lemma frames_countByKey_st:
  assumes "\<And>date. frames n (startOf date) Q"
  shows "frames n (countByKey_st startOf dates counts) (\<lambda>_. True)"
proof (induction dates arbitrary: counts)
  case Nil
  then show ?case by (simp add: frames_return)
next
  case (Cons date dates)
  show ?case
    unfolding countByKey_st.simps
    by (intro frames_then_reads frames_bind [OF assms] Cons.IH)
qed

lemma frames_checkDailyLimits_st: "frames n (checkDailyLimits_st c counts) (\<lambda>_. True)"
proof (induction counts)
  case Nil
  then show ?case by (simp add: frames_return)
next
  case (Cons p counts)
  obtain key count where p: "p = (key, count)" by (cases p)
  show ?case
    unfolding p checkDailyLimits_st.simps
    by (intro frames_then_reads frames_bind [OF frames_getAppointmentsOnDay_st] frames_if
        frames_return Cons.IH TrueI)
qed

lemma frames_checkWeeklyLimits_st: "frames n (checkWeeklyLimits_st c counts) (\<lambda>_. True)"
proof (induction counts)
  case Nil
  then show ?case by (simp add: frames_return)
next
  case (Cons p counts)
  obtain key count where p: "p = (key, count)" by (cases p)
  show ?case
    unfolding p checkWeeklyLimits_st.simps
    by (intro frames_then_reads frames_bind [OF frames_getAppointmentsInWeek_st] frames_if
        frames_return Cons.IH TrueI)
qed

lemma frames_canAccommodateAppointments_st:
  "frames n (canAccommodateAppointments_st c dates) (\<lambda>_. True)"
  unfolding canAccommodateAppointments_st_def
  by (intro frames_then_reads
      frames_bind [OF frames_countByKey_st [OF frames_getStartOfDay_st]]
      frames_bind [OF frames_countByKey_st [OF frames_getStartOfWeek_st]]
      frames_bind [OF frames_checkDailyLimits_st] frames_bind [OF frames_checkWeeklyLimits_st]
      frames_if frames_return TrueI)

lemma in_set_update:
  "(k', v') \<in> set (AList.update k v m) \<Longrightarrow> (k', v') = (k, v) \<or> (k', v') \<in> set m"
  by (induction m) (auto split: if_splits)

lemma frames_groupByDay_st:
  "\<forall>(k, r)\<in>set m. n \<le> r \<Longrightarrow> frames n (groupByDay_st xs m) (\<lambda>_. True)"
proof (induction xs arbitrary: m)
  case Nil
  then show ?case by (simp add: frames_return)
next
  case (Cons slot rest)
  let ?fresh = "\<lambda>m'. \<forall>(k, r)\<in>set m'. n \<le> r"
  have ensure: "frames n
      (if map_of m key = None
       then alloc (DateArray []) \<bind> (\<lambda>arr. State_Monad.return (AList.update key arr m))
       else State_Monad.return m) ?fresh" for key
  proof (rule frames_if)
    show "frames n (alloc (DateArray []) \<bind> (\<lambda>arr. State_Monad.return (AList.update key arr m)))
        ?fresh"
    proof (rule frames_bind [OF frames_alloc], rule frames_return)
      fix arr assume "n \<le> arr"
      then show "?fresh (AList.update key arr m)"
        using Cons.prems in_set_update [of _ _ key arr m] by fastforce
    qed
  next
    show "frames n (State_Monad.return m) ?fresh"
      using Cons.prems by (intro frames_return)
  qed
  have push: "frames n
      (case map_of m' key of None \<Rightarrow> State_Monad.return () | Some arr \<Rightarrow> pushDate arr slot)
      (\<lambda>_. True)" if "?fresh m'" for m' :: "(int \<times> nat) list" and key
  proof (cases "map_of m' key")
    case None
    then show ?thesis by (simp add: frames_return)
  next
    case (Some arr)
    then have "(key, arr) \<in> set m'" by (rule map_of_SomeD)
    then have "n \<le> arr" using that by auto
    then show ?thesis using Some by (simp add: frames_pushDate)
  qed
  show ?case
    unfolding groupByDay_st.simps
    by (intro frames_then_reads frames_bind [OF frames_getStartOfDay_st]
        frames_bind [OF ensure] frames_bind [OF push] Cons.IH)
qed

lemma frames_eligibleDaysLoop:
  "n \<le> eligibleDays \<Longrightarrow> frames n (eligibleDaysLoop c eligibleDays m) (\<lambda>_. True)"
proof (induction m)
  case Nil
  then show ?case by (simp add: frames_return)
next
  case (Cons p m)
  obtain key daySlots where p: "p = (key, daySlots)" by (cases p)
  show ?case
    unfolding p eligibleDaysLoop.simps
    by (intro frames_then_reads frames_bind [OF frames_getAppointmentsOnDay_st]
        frames_bind_if frames_pushDay frames_return Cons.IH Cons.prems TrueI)
qed

lemma frames_pairSlot1:
  "n \<le> validPairs \<Longrightarrow> frames n (pairSlot1 c validPairs slot1 slots2) (\<lambda>_. True)"
proof (induction slots2)
  case Nil
  then show ?case by (simp add: frames_return)
next
  case (Cons slot2 slots2)
  show ?case
    unfolding pairSlot1.simps
    by (intro frames_then_reads frames_bind [OF frames_canAccommodateAppointments_st]
        frames_bind_if frames_pushPair frames_return Cons.IH Cons.prems TrueI)
qed

lemma frames_pairSlots_st:
  "n \<le> validPairs \<Longrightarrow> frames n (pairSlots_st c validPairs slots1 slots2) (\<lambda>_. True)"
proof (induction slots1)
  case Nil
  then show ?case by (simp add: frames_return)
next
  case (Cons slot1 slots1)
  show ?case
    unfolding pairSlots_st.simps
    by (intro frames_then_reads frames_bind [OF frames_pairSlot1] Cons.IH Cons.prems)
qed

lemma frames_pairWithLaterDays_st:
  "n \<le> validPairs \<Longrightarrow> frames n (pairWithLaterDays_st c validPairs day1 days) (\<lambda>_. True)"
proof (induction days)
  case Nil
  then show ?case by (simp add: frames_return)
next
  case (Cons day2 days)
  show ?case
    unfolding pairWithLaterDays_st.simps Let_def
    by (intro frames_if frames_then_reads frames_bind [OF frames_pairSlots_st] frames_return
        Cons.IH Cons.prems TrueI)
qed

lemma frames_pairAllDays_st:
  "n \<le> validPairs \<Longrightarrow> frames n (pairAllDays_st c validPairs days) (\<lambda>_. True)"
proof (induction days)
  case Nil
  then show ?case by (simp add: frames_return)
next
  case (Cons day1 days)
  show ?case
    unfolding pairAllDays_st.simps
    by (intro frames_bind [OF frames_pairWithLaterDays_st] Cons.IH Cons.prems)
qed

lemma frames_assessmentFor_st:
  "n \<le> results \<Longrightarrow> frames n (assessmentFor_st patient results c) (\<lambda>_. True)"
  unfolding assessmentFor_st_def
  by (intro frames_if frames_then_reads frames_bind [OF frames_sortDates]
      frames_bind [OF frames_groupByDay_st] frames_bind [OF frames_eligibleDaysLoop]
      frames_bind [OF frames_sortDays] frames_bind [OF frames_pairAllDays_st]
      frames_pushResult frames_return TrueI; simp)

lemma frames_assessmentLoop:
  "n \<le> results \<Longrightarrow> frames n (assessmentLoop patient results cs) (\<lambda>_. True)"
proof (induction cs)
  case Nil
  then show ?case by (simp add: frames_return)
next
  case (Cons c cs)
  show ?case
    unfolding assessmentLoop.simps
    by (intro frames_bind [OF frames_assessmentFor_st] Cons.IH Cons.prems)
qed

lemma frames_findAssessmentSlots_st:
  "frames n (findAssessmentSlots_st patient clinicians) (\<lambda>r. n \<le> r)"
  unfolding findAssessmentSlots_st_def
  by (intro frames_then_reads frames_bind [OF frames_assessmentLoop] frames_return; assumption)

lemma frames_pushAll: "n \<le> r \<Longrightarrow> frames n (pushAll r xs) (\<lambda>_. True)"
proof (induction xs)
  case Nil
  then show ?case by (simp add: frames_return)
next
  case (Cons x xs)
  show ?case
    unfolding pushAll.simps
    by (intro frames_then_pushes Cons.IH Cons.prems)
qed

lemma frames_optimizeDays:
  "n \<le> optimizedSlots \<Longrightarrow> frames n (optimizeDays optimizedSlots m) (\<lambda>_. True)"
proof (induction m)
  case Nil
  then show ?case by (simp add: frames_return)
next
  case (Cons p m)
  obtain key daySlots where p: "p = (key, daySlots)" by (cases p)
  show ?case
    unfolding p optimizeDays.simps
    by (intro frames_then_reads frames_bind [OF frames_optimizeSlots_st]
        frames_bind [OF frames_pushAll] Cons.IH Cons.prems)
qed

lemma frames_filterAccommodated: "frames n (filterAccommodated c xs) (\<lambda>_. True)"
proof (induction xs)
  case Nil
  then show ?case by (simp add: frames_return)
next
  case (Cons slot xs)
  show ?case
    unfolding filterAccommodated.simps
    by (intro frames_then_reads frames_bind [OF frames_canAccommodateAppointments_st]
        frames_bind [OF Cons.IH] frames_return TrueI)
qed

lemma frames_therapyFor_st:
  "n \<le> results \<Longrightarrow> frames n (therapyFor_st patient results c) (\<lambda>_. True)"
  unfolding therapyFor_st_def
  by (intro frames_if frames_then_reads frames_bind [OF frames_sortDates]
      frames_bind [OF frames_groupByDay_st] frames_bind [OF frames_optimizeDays]
      frames_bind [OF frames_filterAccommodated]
      frames_pushTherapy frames_return TrueI; simp)

lemma frames_therapyLoop:
  "n \<le> results \<Longrightarrow> frames n (therapyLoop patient results cs) (\<lambda>_. True)"
proof (induction cs)
  case Nil
  then show ?case by (simp add: frames_return)
next
  case (Cons c cs)
  show ?case
    unfolding therapyLoop.simps
    by (intro frames_bind [OF frames_therapyFor_st] Cons.IH Cons.prems)
qed

lemma frames_findTherapySlots_st:
  "frames n (findTherapySlots_st patient clinicians) (\<lambda>r. n \<le> r)"
  unfolding findTherapySlots_st_def
  by (intro frames_then_reads frames_bind [OF frames_therapyLoop] frames_return; assumption)

lemma frames_run:
  assumes "frames (length s) m (\<lambda>r. length s \<le> r)"
  shows "length s \<le> fst (run_state m s) \<and> take (length s) (snd (run_state m s)) = s"
proof -
  obtain r s' where rs: "run_state m s = (r, s')" by (cases "run_state m s")
  have "case run_state m s of
      (v, s') \<Rightarrow> length s \<le> length s' \<and> take (length s) s' = take (length s) s \<and>
        length s \<le> v"
    by (rule assms [unfolded frames_def, rule_format]) simp
  then show ?thesis by (simp add: rs)
qed

text \<open>
  On a store with three dates the result is a new array at address 8, its dates are those
  \<open>optimizeSlots\<close> selects from the time values, and the first four cells are as
  before.
\<close>

lemma small_optimize_st:
  "fst (run_state (optimizeSlots_st 3 90) smallStore) = 8 \<and>
   datesAt (snd (run_state (optimizeSlots_st 3 90) smallStore)) 8
     = optimizeSlots (datesAt smallStore 3) 90 \<and>
   datesAt (snd (run_state (optimizeSlots_st 3 90) smallStore)) 8
     = [1724068800000, 1724074200000] \<and>
   take 4 (snd (run_state (optimizeSlots_st 3 90) smallStore)) = smallStore"
  by code_simp

lemma maintains_frames:
  assumes "frames (Suc r) m Q"
  shows "maintains n r m Q"
  unfolding maintains_def
proof (intro allI impI)
  fix s :: store assume pre: "r < length s \<and> freshEntries n (s ! r)"
  obtain v s1 where m: "run_state m s = (v, s1)" by (cases "run_state m s")
  have "case run_state m s of
      (v, s') \<Rightarrow> length s \<le> length s' \<and> take (Suc r) s' = take (Suc r) s \<and> Q v"
    by (rule assms [unfolded frames_def, rule_format]) (use pre in simp)
  then have 1: "length s \<le> length s1" "take (Suc r) s1 = take (Suc r) s" "Q v"
    by (simp_all add: m)
  have "take (Suc r) s1 ! r = take (Suc r) s ! r" using 1(2) by simp
  then have "s1 ! r = s ! r" by simp
  then show "case run_state m s of
      (v, s') \<Rightarrow> r < length s' \<and> freshEntries n (s' ! r) \<and> Q v"
    using pre 1 by (simp add: m)
qed

lemma maintains_return: "Q v \<Longrightarrow> maintains n r (State_Monad.return v) Q"
  by (simp add: maintains_def)

lemma maintains_if:
  "(b \<Longrightarrow> maintains n r m1 Q) \<Longrightarrow> (\<not> b \<Longrightarrow> maintains n r m2 Q)
    \<Longrightarrow> maintains n r (if b then m1 else m2) Q"
  by simp

lemma maintains_bind:
  assumes "maintains n r m Q" and "\<And>v. Q v \<Longrightarrow> maintains n r (f v) R"
  shows "maintains n r (m \<bind> f) R"
  unfolding maintains_def
proof (intro allI impI)
  fix s :: store assume pre: "r < length s \<and> freshEntries n (s ! r)"
  obtain v s1 where m: "run_state m s = (v, s1)" by (cases "run_state m s")
  have "case run_state m s of
      (v, s') \<Rightarrow> r < length s' \<and> freshEntries n (s' ! r) \<and> Q v"
    by (rule assms(1) [unfolded maintains_def, rule_format, OF pre])
  then have 1: "r < length s1 \<and> freshEntries n (s1 ! r)" "Q v"
    by (simp_all add: m)
  obtain w s2 where f: "run_state (f v) s1 = (w, s2)" by (cases "run_state (f v) s1")
  have "case run_state (f v) s1 of
      (v, s') \<Rightarrow> r < length s' \<and> freshEntries n (s' ! r) \<and> R v"
    by (rule assms(2) [OF 1(2), unfolded maintains_def, rule_format, OF 1(1)])
  then have 2: "r < length s2" "freshEntries n (s2 ! r)" "R w"
    by (simp_all add: f)
  show "case run_state (m \<bind> f) s of
      (v, s') \<Rightarrow> r < length s' \<and> freshEntries n (s' ! r) \<and> R v"
    using 2 m f by simp
qed

lemma maintains_pushResult:
  assumes "n \<le> ro_availableSlotPairs x"
  shows "maintains n r (pushResult r x) (\<lambda>_. True)"
  unfolding maintains_def
proof (intro allI impI)
  fix s :: store assume pre: "r < length s \<and> freshEntries n (s ! r)"
  show "case run_state (pushResult r x) s of
      (v, s') \<Rightarrow> r < length s' \<and> freshEntries n (s' ! r) \<and> True"
    using pre assms
    by (cases "s ! r")
      (simp_all add: pushResult_def readResults_def readCell_def writeCell_def freshEntries_def)
qed

lemma maintains_pushTherapy:
  assumes "n \<le> to_availableSlots x"
  shows "maintains n r (pushTherapy r x) (\<lambda>_. True)"
  unfolding maintains_def
proof (intro allI impI)
  fix s :: store assume pre: "r < length s \<and> freshEntries n (s ! r)"
  show "case run_state (pushTherapy r x) s of
      (v, s') \<Rightarrow> r < length s' \<and> freshEntries n (s' ! r) \<and> True"
    using pre assms
    by (cases "s ! r")
      (simp_all add: pushTherapy_def readTherapies_def readCell_def writeCell_def freshEntries_def)
qed

lemmas maintains_then =
  maintains_bind [OF maintains_frames [OF frames_getTime]]
  maintains_bind [OF maintains_frames [OF frames_readDates]]
  maintains_bind [OF maintains_frames [OF frames_readSlots]]
  maintains_bind [OF maintains_frames [OF frames_readClinicians]]
  maintains_bind [OF maintains_frames [OF frames_readDays]]
  maintains_bind [OF maintains_frames [OF frames_readPairs]]
  maintains_bind [OF maintains_frames [OF frames_alloc]]
  maintains_bind [OF maintains_frames [OF frames_sortDates]]
  maintains_bind [OF maintains_frames [OF frames_sortDays]]
  maintains_bind [OF maintains_frames [OF frames_groupByDay_st]]
  maintains_bind [OF maintains_frames [OF frames_eligibleDaysLoop]]
  maintains_bind [OF maintains_frames [OF frames_pairAllDays_st]]
  maintains_bind [OF maintains_frames [OF frames_optimizeDays]]
  maintains_bind [OF maintains_frames [OF frames_filterAccommodated]]

lemma maintains_assessmentFor_st:
  "n \<le> r \<Longrightarrow> maintains n r (assessmentFor_st patient r c) (\<lambda>_. True)"
  unfolding assessmentFor_st_def
  by (intro maintains_if maintains_then maintains_pushResult maintains_return TrueI; simp)

lemma maintains_therapyFor_st:
  "n \<le> r \<Longrightarrow> maintains n r (therapyFor_st patient r c) (\<lambda>_. True)"
  unfolding therapyFor_st_def
  by (intro maintains_if maintains_then maintains_pushTherapy maintains_return TrueI; simp)

lemma maintains_assessmentLoop:
  "n \<le> r \<Longrightarrow> maintains n r (assessmentLoop patient r cs) (\<lambda>_. True)"
proof (induction cs)
  case Nil
  then show ?case by (simp add: maintains_return)
next
  case (Cons c cs)
  show ?case
    unfolding assessmentLoop.simps
    by (intro maintains_bind [OF maintains_assessmentFor_st] Cons.IH Cons.prems)
qed

lemma maintains_therapyLoop:
  "n \<le> r \<Longrightarrow> maintains n r (therapyLoop patient r cs) (\<lambda>_. True)"
proof (induction cs)
  case Nil
  then show ?case by (simp add: maintains_return)
next
  case (Cons c cs)
  show ?case
    unfolding therapyLoop.simps
    by (intro maintains_bind [OF maintains_therapyFor_st] Cons.IH Cons.prems)
qed

lemma findAssessmentSlots_st_entries:
  "fst (run_state (findAssessmentSlots_st patient clinicians) s)
     < length (snd (run_state (findAssessmentSlots_st patient clinicians) s)) \<and>
   freshEntries (length s)
     (snd (run_state (findAssessmentSlots_st patient clinicians) s)
        ! fst (run_state (findAssessmentSlots_st patient clinicians) s))"
proof -
  let ?r = "length s"
  let ?rest = "readClinicians clinicians \<bind>
      (\<lambda>cs. assessmentLoop patient ?r cs \<bind> (\<lambda>_. State_Monad.return ?r))"
  have mt: "maintains ?r ?r ?rest (\<lambda>v. v = ?r)"
    by (intro maintains_then maintains_bind [OF maintains_assessmentLoop] maintains_return)
      simp_all
  obtain v s' where run: "run_state ?rest (s @ [ResultArray []]) = (v, s')"
    by (cases "run_state ?rest (s @ [ResultArray []])")
  have "case run_state ?rest (s @ [ResultArray []]) of
      (v, s') \<Rightarrow> ?r < length s' \<and> freshEntries ?r (s' ! ?r) \<and> v = ?r"
    by (rule mt [unfolded maintains_def, rule_format]) (simp add: freshEntries_def)
  then have "?r < length s' \<and> freshEntries ?r (s' ! ?r) \<and> v = ?r"
    unfolding run by simp
  moreover have "run_state (findAssessmentSlots_st patient clinicians) s = (v, s')"
    using run by (simp add: findAssessmentSlots_st_def alloc_def)
  ultimately show ?thesis by simp
qed

lemma findTherapySlots_st_entries:
  "fst (run_state (findTherapySlots_st patient clinicians) s)
     < length (snd (run_state (findTherapySlots_st patient clinicians) s)) \<and>
   freshEntries (length s)
     (snd (run_state (findTherapySlots_st patient clinicians) s)
        ! fst (run_state (findTherapySlots_st patient clinicians) s))"
proof -
  let ?r = "length s"
  let ?rest = "readClinicians clinicians \<bind>
      (\<lambda>cs. therapyLoop patient ?r cs \<bind> (\<lambda>_. State_Monad.return ?r))"
  have mt: "maintains ?r ?r ?rest (\<lambda>v. v = ?r)"
    by (intro maintains_then maintains_bind [OF maintains_therapyLoop] maintains_return)
      simp_all
  obtain v s' where run: "run_state ?rest (s @ [TherapyArray []]) = (v, s')"
    by (cases "run_state ?rest (s @ [TherapyArray []])")
  have "case run_state ?rest (s @ [TherapyArray []]) of
      (v, s') \<Rightarrow> ?r < length s' \<and> freshEntries ?r (s' ! ?r) \<and> v = ?r"
    by (rule mt [unfolded maintains_def, rule_format]) (simp add: freshEntries_def)
  then have "?r < length s' \<and> freshEntries ?r (s' ! ?r) \<and> v = ?r"
    unfolding run by simp
  moreover have "run_state (findTherapySlots_st patient clinicians) s = (v, s')"
    using run by (simp add: findTherapySlots_st_def alloc_def)
  ultimately show ?thesis by simp
qed

text \<open>
  Claim C9. From any store, \<open>optimizeSlots\<close>, \<open>findAssessmentSlots\<close> and
  \<open>findTherapySlots\<close> return the address of a cell that did not exist before the call,
  and the store after the call begins with the store before the call: every cell that
  existed (the roster, the arrays of slots and of appointments of every clinician with
  the order of their elements, every \<open>Date\<close>) is unchanged. The patient and the
  clinician objects are values that nothing assigns to. The arrays returned are new, and
  so is the array of pairs, or of slots, of every entry of a result; the \<open>Date\<close> and
  clinician objects they refer to are those of the input.
\<close>

theorem inputs_not_mutated:
  "(length s \<le> fst (run_state (optimizeSlots_st dates durationMinutes) s) \<and>
    take (length s) (snd (run_state (optimizeSlots_st dates durationMinutes) s)) = s) \<and>
   (length s \<le> fst (run_state (findAssessmentSlots_st patient clinicians) s) \<and>
    take (length s) (snd (run_state (findAssessmentSlots_st patient clinicians) s)) = s \<and>
    fst (run_state (findAssessmentSlots_st patient clinicians) s)
      < length (snd (run_state (findAssessmentSlots_st patient clinicians) s)) \<and>
    freshEntries (length s)
      (snd (run_state (findAssessmentSlots_st patient clinicians) s)
         ! fst (run_state (findAssessmentSlots_st patient clinicians) s))) \<and>
   (length s \<le> fst (run_state (findTherapySlots_st patient clinicians) s) \<and>
    take (length s) (snd (run_state (findTherapySlots_st patient clinicians) s)) = s \<and>
    fst (run_state (findTherapySlots_st patient clinicians) s)
      < length (snd (run_state (findTherapySlots_st patient clinicians) s)) \<and>
    freshEntries (length s)
      (snd (run_state (findTherapySlots_st patient clinicians) s)
         ! fst (run_state (findTherapySlots_st patient clinicians) s)))"
  by (intro conjI frames_run [THEN conjunct1] frames_run [THEN conjunct2]
      frames_optimizeSlots_st frames_findAssessmentSlots_st frames_findTherapySlots_st
      findAssessmentSlots_st_entries [THEN conjunct1]
      findAssessmentSlots_st_entries [THEN conjunct2]
      findTherapySlots_st_entries [THEN conjunct1]
      findTherapySlots_st_entries [THEN conjunct2])

subsection \<open>The scheduler within the range of \<open>Date\<close>\<close>

text \<open>
  The functions on unbounded time values agree with the functions on dates of limited
  range as long as no date computed on the way leaves the range.
\<close>

lemma TimeClip_valid: "TimeClip t = (if validTime t then Some t else None)"
  by (auto simp: TimeClip_def validTime_def)

lemma le_Day_iff: "(n * msPerDay \<le> t) = (n \<le> Day t)"
proof
  assume "n * msPerDay \<le> t"
  then have "(n * msPerDay) div msPerDay \<le> t div msPerDay"
    by (rule zdiv_mono1) (simp add: msPerDay_def)
  then show "n \<le> Day t" by (simp add: Day_def msPerDay_def)
next
  assume "n \<le> Day t"
  then have "n * msPerDay \<le> Day t * msPerDay"
    by (rule mult_right_mono) (simp add: msPerDay_def)
  then show "n * msPerDay \<le> t" using Day_bounds [of t] by linarith
qed

lemma minTime_Day: "(- maxTimeValue \<le> t) = (- 100000000 \<le> Day t)"
  using le_Day_iff [of "- 100000000" t] by (simp add: maxTimeValue_def msPerDay_def)

lemma firstMonday_Day: "(firstMonday \<le> t) = (- 99999994 \<le> Day t)"
  using le_Day_iff [of "- 99999994" t] by (simp add: firstMonday_def maxTimeValue_def msPerDay_def)

lemma validTime_getStartOfDay: "validTime t \<Longrightarrow> validTime (getStartOfDay t)"
proof -
  assume v: "validTime t"
  have "Day (getStartOfDay t) = Day t" by (simp add: getStartOfDay_eq Day_of_midnight)
  then have "- maxTimeValue \<le> getStartOfDay t"
    using v by (simp add: minTime_Day validTime_def)
  moreover have "getStartOfDay t \<le> t"
    using Day_bounds [of t] by (simp add: getStartOfDay_eq)
  ultimately show ?thesis using v by (simp add: validTime_def)
qed

lemma getStartOfDay_clipped_valid:
  "validTime t \<Longrightarrow> getStartOfDay_clipped t = Some (getStartOfDay t)"
  using validTime_getStartOfDay [of t]
  by (simp add: getStartOfDay_clipped_def setUTCHours_clipped_def TimeClip_valid
      getStartOfDay_def)

lemma monday_in_range:
  fixes d :: int
  shows "(- 100000000 \<le> d - (d + 3) mod 7) = (- 99999994 \<le> d)"
  by presburger

lemma weekOffset_eq: "(WeekDay t + 6) mod 7 = (Day t + 3) mod 7"
  unfolding WeekDay_def by presburger

lemma getStartOfWeek_clipped_eq:
  assumes "validTime t"
  shows "getStartOfWeek_clipped t =
     (if firstMonday \<le> t then Some (getStartOfWeek t) else None)"
proof -
  define m where "m = (WeekDay t + 6) mod 7"
  define t' where "t' = t + (- m) * msPerDay"
  have m: "0 \<le> m" "m \<le> 6" "m = (Day t + 3) mod 7"
    using weekOffset_range [of t] weekOffset_eq [of t] by (simp_all add: m_def)
  have k: "getUTCDate t - WeekDay t + (if WeekDay t = 0 then - 6 else 1) = getUTCDate t + (- m)"
    using WeekDay_range [of t] unfolding m_def by presburger
  have step1: "setUTCDate t (getUTCDate t - WeekDay t + (if WeekDay t = 0 then - 6 else 1)) = t'"
    unfolding k t'_def by (rule setUTCDate_shift)
  have day': "Day t' = Day t - m"
    unfolding t'_def using Day_shift [of t "- m"] by simp
  have le: "t' \<le> t"
  proof -
    have "0 \<le> m * msPerDay" using m(1) by (simp add: msPerDay_def)
    then show ?thesis by (simp add: t'_def)
  qed
  have valid': "validTime t' = (firstMonday \<le> t)"
  proof -
    have "(- maxTimeValue \<le> t') = (- 100000000 \<le> Day t - (Day t + 3) mod 7)"
      by (simp add: minTime_Day day' m(3))
    also have "\<dots> = (firstMonday \<le> t)"
      by (simp add: monday_in_range firstMonday_Day)
    finally show ?thesis using le assms by (simp add: validTime_def)
  qed
  have wk: "getStartOfWeek t = getStartOfDay t'"
    by (simp add: getStartOfWeek_eq getStartOfDay_eq day' m_def)
  have "getStartOfWeek_clipped t = setUTCHours_clipped (TimeClip t') 0 0 0 0"
    by (simp add: getStartOfWeek_clipped_def Let_def setUTCDate_clipped_def getUTCDay_def step1)
  also have "\<dots> = (if firstMonday \<le> t then Some (getStartOfWeek t) else None)"
  proof (cases "firstMonday \<le> t")
    case True
    then have v: "validTime t'" using valid' by simp
    then have "setUTCHours_clipped (TimeClip t') 0 0 0 0 = getStartOfDay_clipped t'"
      by (simp add: TimeClip_valid getStartOfDay_clipped_def)
    then show ?thesis
      using True getStartOfDay_clipped_valid [OF v] by (simp add: wk)
  next
    case False
    then have "\<not> validTime t'" using valid' by simp
    then show ?thesis
      using False by (simp add: TimeClip_valid setUTCHours_clipped_def)
  qed
  finally show ?thesis .
qed

lemma validTime_getStartOfWeek:
  assumes "validTime t" and "firstMonday \<le> t"
  shows "validTime (getStartOfWeek t)"
proof -
  have "Day (getStartOfWeek t) = Day t - (WeekDay t + 6) mod 7"
    unfolding getStartOfWeek_eq by (rule Day_of_midnight)
  then have d: "Day (getStartOfWeek t) = Day t - (Day t + 3) mod 7"
    unfolding weekOffset_eq .
  have "- 100000000 \<le> Day t - (Day t + 3) mod 7"
    using assms(2) unfolding firstMonday_Day monday_in_range .
  then have "- 100000000 \<le> Day (getStartOfWeek t)"
    unfolding d .
  then have "- maxTimeValue \<le> getStartOfWeek t"
    unfolding minTime_Day .
  moreover have "getStartOfWeek t \<le> t"
    using getStartOfWeek_monday [of t] by blast
  ultimately show ?thesis using assms(1) by (simp add: validTime_def)
qed

lemma firstMonday_facts:
  "firstMonday = - 8639999481600000 \<and> validTime firstMonday \<and>
   WeekDay firstMonday = 1 \<and> TimeWithinDay firstMonday = 0 \<and>
   \<not> validTime (firstMonday - 7 * msPerDay) \<and>
   WeekDay (- 8640000000000000) = 2"
  by code_simp

lemma earliest_date_week:
  "validTime (- 8640000000000000) \<and> - 8640000000000000 < firstMonday \<and>
   getUTCDay (- 8640000000000000) = 2 \<and>
   setUTCDate (- 8640000000000000) (getUTCDate (- 8640000000000000) - 2 + 1)
     = - 8640000086400000 \<and>
   TimeClip (- 8640000086400000) = None \<and>
   getStartOfWeek_clipped (- 8640000000000000) = None"
  by code_simp

text \<open>
  Claim C7, as stated for every instant, fails in the first six days of the range of
  \<open>Date\<close>: for the least valid date, a Tuesday, \<open>setUTCDate\<close> computes the Monday
  one day earlier, which is out of range, and \<open>getStartOfWeek\<close> returns an invalid
  date.
\<close>

theorem getStartOfWeek_before_range_counterexample:
  "validTime (- 8640000000000000) \<and> getStartOfWeek_clipped (- 8640000000000000) = None"
  using earliest_date_week by simp

text \<open>
  Claim C7, amended. For a valid date \<open>t\<close> before the first Monday midnight of the
  range (\<open>firstMonday\<close>, time value \<open>-8639999481600000\<close>), \<open>getStartOfWeek\<close>
  returns an invalid date. For every other valid date \<open>t\<close> it returns a valid date
  that is a midnight (00:00:00.000 UTC) and a Monday, with \<open>t\<close> in the seven days
  that begin there: the Monday of the week of \<open>t\<close>, weeks running from Monday to
  Sunday. For a Sunday it is the Monday six days earlier. No case depends on the month or
  year of either day.
\<close>

theorem getStartOfWeek_clipped_monday:
  assumes "validTime t"
  shows "(t < firstMonday \<longrightarrow> getStartOfWeek_clipped t = None) \<and>
         (firstMonday \<le> t \<longrightarrow>
            (\<exists>r. getStartOfWeek_clipped t = Some r \<and> validTime r \<and>
                 TimeWithinDay r = 0 \<and> WeekDay r = 1 \<and>
                 r \<le> t \<and> t < r + 7 * msPerDay \<and>
                 (WeekDay t = 0 \<longrightarrow> Day r = Day t - 6)))"
proof (intro conjI impI)
  assume "t < firstMonday"
  then show "getStartOfWeek_clipped t = None"
    using getStartOfWeek_clipped_eq [OF assms] by simp
next
  assume r: "firstMonday \<le> t"
  have "getStartOfWeek_clipped t = Some (getStartOfWeek t)"
    using getStartOfWeek_clipped_eq [OF assms] r by simp
  moreover have "validTime (getStartOfWeek t)"
    using assms r by (rule validTime_getStartOfWeek)
  ultimately show "\<exists>r. getStartOfWeek_clipped t = Some r \<and> validTime r \<and>
                 TimeWithinDay r = 0 \<and> WeekDay r = 1 \<and>
                 r \<le> t \<and> t < r + 7 * msPerDay \<and>
                 (WeekDay t = 0 \<longrightarrow> Day r = Day t - 6)"
    using getStartOfWeek_monday [of t] by blast
qed

lemma sunday_2023_01_01_clipped:
  "validTime 1672561800000 \<and> firstMonday \<le> 1672561800000 \<and>
   getStartOfWeek_clipped 1672561800000 = Some 1672012800000"
  by code_simp

theorem getStartOfWeek_clipped_monday_witness:
  "validTime 1672561800000 \<and> firstMonday \<le> 1672561800000 \<and> WeekDay 1672561800000 = 0 \<and>
   getStartOfWeek_clipped 1672561800000 = Some 1672012800000 \<and>
   WeekDay 1672012800000 = 1 \<and> TimeWithinDay 1672012800000 = 0 \<and>
   Day 1672012800000 = Day 1672561800000 - 6 \<and>
   validTime (- 8640000000000000) \<and> - 8640000000000000 < firstMonday \<and>
   getStartOfWeek_clipped (- 8640000000000000) = None"
proof -
  have v1: "validTime 1672561800000" and v2: "validTime (- 8640000000000000)"
    using sunday_2023_01_01_clipped earliest_date_week by simp_all
  show ?thesis
    using getStartOfWeek_clipped_monday [OF v1] getStartOfWeek_clipped_monday [OF v2]
      sunday_2023_01_01_clipped sunday_2023_01_01 earliest_date_week
    by simp
qed

lemma in_day_window:
  "(getStartOfDay t \<le> x \<and> x < getStartOfDay t + 86400000 \<and> P) = (P \<and> Day x = Day t)"
  unfolding getStartOfDay_eq
proof -
  have "(x < (Day t + 1) * msPerDay) = (Day x < Day t + 1)"
    using le_Day_iff [of "Day t + 1" x] by linarith
  moreover have "(Day t + 1) * msPerDay = Day t * msPerDay + 86400000"
    by (simp add: msPerDay_def distrib_right)
  ultimately show "(Day t * msPerDay \<le> x \<and> x < Day t * msPerDay + 86400000 \<and> P) =
      (P \<and> Day x = Day t)"
    using le_Day_iff [of "Day t" x] by auto
qed

lemma div7_iff:
  fixes y q :: int
  shows "(y div 7 = q) = (7 * q \<le> y \<and> y < 7 * q + 7)"
proof
  assume "y div 7 = q"
  then have "y = 7 * q + y mod 7" using mult_div_mod_eq [of 7 y] by simp
  moreover have "0 \<le> y mod 7" "y mod 7 < 7" by simp_all
  ultimately show "7 * q \<le> y \<and> y < 7 * q + 7" by linarith
next
  assume a: "7 * q \<le> y \<and> y < 7 * q + 7"
  have "y = 7 * (y div 7) + y mod 7" using mult_div_mod_eq [of 7 y] by simp
  moreover have "0 \<le> y mod 7" "y mod 7 < 7" by simp_all
  ultimately have "7 * (y div 7) \<le> y" "y < 7 * (y div 7) + 7" by linarith+
  with a show "y div 7 = q" by linarith
qed

lemma monday_arith:
  fixes d :: int
  shows "d - (d + 3) mod 7 = 7 * ((d + 3) div 7) - 3"
  using mult_div_mod_eq [of 7 "d + 3"] by linarith

lemma week_arith:
  fixes d x :: int
  shows "(d - (d + 3) mod 7 \<le> x \<and> x < d - (d + 3) mod 7 + 7) = ((x + 3) div 7 = (d + 3) div 7)"
  unfolding monday_arith div7_iff [of "x + 3"] by linarith

lemma in_week_window:
  "(getStartOfWeek t \<le> x \<and> x < getStartOfWeek t + 604800000 \<and> P) =
     (P \<and> weekOf x = weekOf t)"
proof -
  define m where "m = Day t - (Day t + 3) mod 7"
  have ws: "getStartOfWeek t = m * msPerDay"
    by (simp add: getStartOfWeek_eq weekOffset_eq m_def)
  have "(x < (m + 7) * msPerDay) = (Day x < m + 7)"
    using le_Day_iff [of "m + 7" x] by linarith
  moreover have "(m + 7) * msPerDay = m * msPerDay + 604800000"
    by (simp add: msPerDay_def distrib_right)
  ultimately have "(getStartOfWeek t \<le> x \<and> x < getStartOfWeek t + 604800000) =
      (m \<le> Day x \<and> Day x < m + 7)"
    using le_Day_iff [of m x] by (auto simp: ws)
  then have "(getStartOfWeek t \<le> x \<and> x < getStartOfWeek t + 604800000) =
      (weekOf x = weekOf t)"
    unfolding m_def week_arith weekOf_def .
  then show ?thesis by auto
qed

lemma getAppointmentsOnDay_consumingOnDay: "getAppointmentsOnDay c t = consumingOnDay c t"
  by (simp add: getAppointmentsOnDay_def consumingOnDay_def Let_def in_day_window
      countable_iff_consuming)

lemma getAppointmentsInWeek_consumingInWeek: "getAppointmentsInWeek c t = consumingInWeek c t"
  by (simp add: getAppointmentsInWeek_def consumingInWeek_def Let_def in_week_window
      countable_iff_consuming)

lemma same_day_iff: "(getStartOfDay d = getStartOfDay t) = (Day d = Day t)"
  by (simp add: getStartOfDay_eq msPerDay_def)

lemma same_week_iff: "(getStartOfWeek d = getStartOfWeek t) = (weekOf d = weekOf t)"
  by (simp add: getStartOfWeek_eq weekOffset_eq monday_arith weekOf_def msPerDay_def)

lemma proposedOnDay_instantsOnDay: "proposedOnDay ds t = instantsOnDay ds t"
  by (simp add: proposedOnDay_def instantsOnDay_def same_day_iff)

lemma proposedInWeek_instantsInWeek: "proposedInWeek ds t = instantsInWeek ds t"
  by (simp add: proposedInWeek_def instantsInWeek_def same_week_iff)

lemma Day_getStartOfDay: "Day (getStartOfDay t) = Day t"
  unfolding getStartOfDay_eq by (rule Day_of_midnight)

lemma weekOf_getStartOfWeek: "weekOf (getStartOfWeek t) = weekOf t"
  using same_week_iff [of "getStartOfWeek t" t] by (simp add: getStartOfWeek_idem)

lemma checkDaily_counts:
  "checkDailyLimits c (countByKey getStartOfDay ds []) =
     (\<forall>d\<in>set ds. int (consumingOnDay c d + instantsOnDay ds d) \<le> maxDailyAppointments c)"
  unfolding checkDailyLimits_iff ball_countByKey getAppointmentsOnDay_consumingOnDay
  by (simp add: consumingOnDay_def Day_getStartOfDay instantsOnDay_def same_day_iff)

lemma checkWeekly_counts:
  "checkWeeklyLimits c (countByKey getStartOfWeek ds []) =
     (\<forall>d\<in>set ds. int (consumingInWeek c d + instantsInWeek ds d) \<le> maxWeeklyAppointments c)"
  unfolding checkWeeklyLimits_iff ball_countByKey getAppointmentsInWeek_consumingInWeek
  by (simp add: consumingInWeek_def weekOf_getStartOfWeek instantsInWeek_def same_week_iff)

lemma countByKey_clipped_Inr:
  "\<forall>d\<in>set ds. startOf' d = Some (startOf d) \<Longrightarrow>
   countByKey_clipped startOf' ds m = Inr (countByKey startOf ds m)"
  by (induction ds arbitrary: m) (simp_all add: toISOString_def)

lemma countByKey_clipped_Inl:
  "\<exists>d\<in>set ds. startOf' d = None \<Longrightarrow> countByKey_clipped startOf' ds m = Inl RangeError"
proof (induction ds arbitrary: m)
  case Nil
  then show ?case by simp
next
  case (Cons d ds)
  show ?case
  proof (cases "startOf' d")
    case None
    then show ?thesis by (simp add: toISOString_def)
  next
    case (Some k)
    then have "\<exists>d\<in>set ds. startOf' d = None" using Cons.prems by auto
    then show ?thesis using Some Cons.IH by (simp add: toISOString_def)
  qed
qed

lemma getAppointmentsOnDay_clipped_valid:
  "validTime k \<Longrightarrow> getAppointmentsOnDay_clipped c k = getAppointmentsOnDay c k"
  by (simp add: getAppointmentsOnDay_clipped_def getAppointmentsOnDay_def
      getStartOfDay_clipped_valid Let_def)

lemma getAppointmentsInWeek_clipped_valid:
  "validTime k \<Longrightarrow> firstMonday \<le> k \<Longrightarrow>
   getAppointmentsInWeek_clipped c k = getAppointmentsInWeek c k"
  by (simp add: getAppointmentsInWeek_clipped_def getAppointmentsInWeek_def
      getStartOfWeek_clipped_eq Let_def)

lemma checkDailyLimits_clipped_eq:
  "\<forall>(k, n)\<in>set m. validTime k \<Longrightarrow> checkDailyLimits_clipped c m = checkDailyLimits c m"
  by (induction m) (auto simp: Let_def getAppointmentsOnDay_clipped_valid split: if_splits)

lemma checkWeeklyLimits_clipped_eq:
  "\<forall>(k, n)\<in>set m. validTime k \<and> firstMonday \<le> k \<Longrightarrow>
   checkWeeklyLimits_clipped c m = checkWeeklyLimits c m"
  by (induction m) (auto simp: Let_def getAppointmentsInWeek_clipped_valid split: if_splits)

lemma monday_after_first:
  fixes d :: int
  shows "(- 99999994 \<le> d - (d + 3) mod 7) = (- 99999994 \<le> d)"
  by presburger

lemma firstMonday_getStartOfWeek:
  assumes "firstMonday \<le> t"
  shows "firstMonday \<le> getStartOfWeek t"
proof -
  have "Day (getStartOfWeek t) = Day t - (WeekDay t + 6) mod 7"
    unfolding getStartOfWeek_eq by (rule Day_of_midnight)
  then have d: "Day (getStartOfWeek t) = Day t - (Day t + 3) mod 7"
    unfolding weekOffset_eq .
  have "- 99999994 \<le> Day t" using assms unfolding firstMonday_Day .
  then have "- 99999994 \<le> Day t - (Day t + 3) mod 7" unfolding monday_after_first .
  then show ?thesis unfolding firstMonday_Day d .
qed

lemma canAccommodate_clipped_eq:
  assumes "\<forall>d\<in>set dates. validTime d"
  shows "canAccommodateAppointments_clipped c dates =
     (if \<not> checkDailyLimits c (countByKey getStartOfDay dates []) then Inr False
      else if \<exists>d\<in>set dates. d < firstMonday then Inl RangeError
      else Inr (checkWeeklyLimits c (countByKey getStartOfWeek dates [])))"
proof -
  have days: "countByKey_clipped getStartOfDay_clipped dates [] =
      Inr (countByKey getStartOfDay dates [])"
    by (rule countByKey_clipped_Inr) (simp add: assms getStartOfDay_clipped_valid)
  have "\<forall>(k, n)\<in>set (countByKey getStartOfDay dates []). validTime k"
    unfolding ball_countByKey by (simp add: assms validTime_getStartOfDay)
  then have daily: "checkDailyLimits_clipped c (countByKey getStartOfDay dates []) =
      checkDailyLimits c (countByKey getStartOfDay dates [])"
    by (rule checkDailyLimits_clipped_eq)
  show ?thesis
  proof (cases "\<exists>d\<in>set dates. d < firstMonday")
    case True
    then obtain d where d: "d \<in> set dates" "d < firstMonday" by blast
    then have "getStartOfWeek_clipped d = None"
      using assms by (simp add: getStartOfWeek_clipped_eq)
    then have "\<exists>d\<in>set dates. getStartOfWeek_clipped d = None"
      using d(1) by blast
    then have "countByKey_clipped getStartOfWeek_clipped dates [] = Inl RangeError"
      by (rule countByKey_clipped_Inl)
    then show ?thesis
      using True days daily by (simp add: canAccommodateAppointments_clipped_def)
  next
    case False
    then have fm: "\<forall>d\<in>set dates. firstMonday \<le> d" by auto
    have weeks: "countByKey_clipped getStartOfWeek_clipped dates [] =
        Inr (countByKey getStartOfWeek dates [])"
      by (rule countByKey_clipped_Inr) (simp add: assms fm getStartOfWeek_clipped_eq)
    have "\<forall>(k, n)\<in>set (countByKey getStartOfWeek dates []).
        validTime k \<and> firstMonday \<le> k"
      unfolding ball_countByKey
      by (simp add: assms fm validTime_getStartOfWeek firstMonday_getStartOfWeek)
    then have weekly: "checkWeeklyLimits_clipped c (countByKey getStartOfWeek dates []) =
        checkWeeklyLimits c (countByKey getStartOfWeek dates [])"
      by (rule checkWeeklyLimits_clipped_eq)
    show ?thesis
      using False days daily weeks weekly
      by (simp add: canAccommodateAppointments_clipped_def)
  qed
qed

text \<open>
  Claim C2, amended. Let every proposed instant be a valid date. If, for the UTC day of
  some proposed instant, the capacity-consuming appointments of that day plus the proposed
  instants of that day exceed \<open>maxDailyAppointments\<close>, \<open>canAccommodateAppointments\<close>
  returns false. Otherwise, if a proposed instant lies before the first Monday midnight of
  the range of \<open>Date\<close>, it throws a \<open>RangeError\<close>. Otherwise it returns true
  exactly when, for the week (Monday to Sunday) of every proposed instant, the
  capacity-consuming appointments of that week plus the proposed instants of that week are
  at most \<open>maxWeeklyAppointments\<close>. Only the days and weeks of the proposed instants
  are examined; a sum equal to the limit is accepted; instants sharing a day or a week are
  counted together.
\<close>

theorem canAccommodate_clipped_limits:
  assumes "\<forall>d\<in>set dates. validTime d"
  shows "canAccommodateAppointments_clipped c dates =
     (if \<not> (\<forall>d\<in>set dates.
               int (consumingOnDay c d + instantsOnDay dates d) \<le> maxDailyAppointments c)
      then Inr False
      else if \<exists>d\<in>set dates. d < firstMonday then Inl RangeError
      else Inr (\<forall>d\<in>set dates.
               int (consumingInWeek c d + instantsInWeek dates d) \<le> maxWeeklyAppointments c))"
  using canAccommodate_clipped_eq [OF assms, of c]
  unfolding checkDaily_counts checkWeekly_counts .

lemma capacity_values:
  "validTime 1724068800000 \<and> firstMonday \<le> 1724068800000 \<and>
   consumingOnDay fourBooked 1724068800000 = 4 \<and>
   consumingOnDay fiveBooked 1724068800000 = 5 \<and>
   instantsOnDay [1724068800000] 1724068800000 = 1 \<and>
   maxDailyAppointments fourBooked = 5 \<and> maxDailyAppointments fiveBooked = 5 \<and>
   consumingInWeek fourBooked 1724068800000 = 4 \<and>
   instantsInWeek [1724068800000] 1724068800000 = 1 \<and>
   maxWeeklyAppointments fourBooked = 8 \<and>
   consumingOnDay weekBooked 1724068800000 = 0 \<and>
   consumingInWeek weekBooked 1724068800000 = 2 \<and>
   maxDailyAppointments weekBooked = 2 \<and> maxWeeklyAppointments weekBooked = 2"
  by code_simp

lemma capacity_values_relaxed:
  "consumingOnDay (weekBooked\<lparr>maxWeeklyAppointments := 3\<rparr>) 1724068800000 = 0 \<and>
   consumingInWeek (weekBooked\<lparr>maxWeeklyAppointments := 3\<rparr>) 1724068800000 = 2 \<and>
   maxDailyAppointments (weekBooked\<lparr>maxWeeklyAppointments := 3\<rparr>) = 2"
  by code_simp

lemma capacity_values_edge:
  "validTime (- 8640000000000000) \<and> - 8640000000000000 < firstMonday \<and>
   consumingOnDay psychologist (- 8640000000000000) = 0 \<and>
   instantsOnDay [- 8640000000000000] (- 8640000000000000) = 1 \<and>
   consumingInWeek psychologist (- 8640000000000000) = 0 \<and>
   instantsInWeek [- 8640000000000000] (- 8640000000000000) = 1 \<and>
   maxDailyAppointments psychologist = 2 \<and> maxWeeklyAppointments psychologist = 8"
  by code_simp

text \<open>
  Claim C2, as stated, quantifies over every UTC day and week and promises a boolean.
  The source examines the days and weeks of the proposed instants only: a clinician with
  two counted appointments on 2024-08-19 and a daily limit of 1 is found able to take an
  appointment on 2024-08-21, although the count of 2024-08-19 is above the limit. And for
  the least valid date as the proposed instant the source throws a \<open>RangeError\<close>, with
  every bound satisfied.
\<close>

lemma capacity_values_shared_day:
  "validTime 1724069700000 \<and>
   consumingOnDay fourBooked 1724069700000 = 4 \<and>
   instantsOnDay [1724068800000, 1724069700000] 1724068800000 = 2 \<and>
   instantsOnDay [1724068800000, 1724069700000] 1724069700000 = 2"
  by code_simp

theorem canAccommodate_clipped_counterexample:
  "canAccommodateAppointments_clipped overbooked [1724241600000] = Inr True \<and>
   \<not> int (consumingOnDay overbooked 1724025600000 + instantsOnDay [1724241600000] 1724025600000)
       \<le> maxDailyAppointments overbooked \<and>
   validTime (- 8640000000000000) \<and>
   canAccommodateAppointments_clipped psychologist [- 8640000000000000] = Inl RangeError \<and>
   int (consumingOnDay psychologist (- 8640000000000000)
         + instantsOnDay [- 8640000000000000] (- 8640000000000000))
       \<le> maxDailyAppointments psychologist \<and>
   int (consumingInWeek psychologist (- 8640000000000000)
         + instantsInWeek [- 8640000000000000] (- 8640000000000000))
       \<le> maxWeeklyAppointments psychologist"
  by code_simp

theorem canAccommodate_clipped_limits_witness:
  "canAccommodateAppointments_clipped fourBooked [1724068800000] = Inr True \<and>
   int (consumingOnDay fourBooked 1724068800000 + instantsOnDay [1724068800000] 1724068800000)
     = maxDailyAppointments fourBooked \<and>
   canAccommodateAppointments_clipped fiveBooked [1724068800000] = Inr False \<and>
   int (consumingOnDay fiveBooked 1724068800000 + instantsOnDay [1724068800000] 1724068800000)
     = maxDailyAppointments fiveBooked + 1 \<and>
   canAccommodateAppointments_clipped weekBooked [1724068800000] = Inr False \<and>
   int (consumingInWeek weekBooked 1724068800000 + instantsInWeek [1724068800000] 1724068800000)
     = maxWeeklyAppointments weekBooked + 1 \<and>
   canAccommodateAppointments_clipped (weekBooked\<lparr>maxWeeklyAppointments := 3\<rparr>)
       [1724068800000] = Inr True \<and>
   canAccommodateAppointments_clipped psychologist [- 8640000000000000] = Inl RangeError \<and>
   canAccommodateAppointments_clipped fourBooked [1724068800000, 1724069700000] = Inr False \<and>
   int (consumingOnDay fourBooked 1724068800000
         + instantsOnDay [1724068800000, 1724069700000] 1724068800000)
     = maxDailyAppointments fourBooked + 1"
  using canAccommodate_clipped_limits [of "[1724068800000]" fourBooked]
    canAccommodate_clipped_limits [of "[1724068800000, 1724069700000]" fourBooked]
    canAccommodate_clipped_limits [of "[1724068800000]" fiveBooked]
    canAccommodate_clipped_limits [of "[1724068800000]" weekBooked]
    canAccommodate_clipped_limits [of "[1724068800000]" "weekBooked\<lparr>maxWeeklyAppointments := 3\<rparr>"]
    canAccommodate_clipped_limits [of "[- 8640000000000000]" psychologist]
    capacity_values capacity_values_relaxed capacity_values_edge capacity_values_shared_day
  by simp
















end
